theory Spec2Isabelle
  imports Complex_Main
begin

section \<open>Focal loss for LightGBM: a shallow embedding of the notebook's four functions\<close>

text \<open>
  The notebook \<^verbatim>\<open>examples/Lightgbm_with_Focal_Loss.ipynb\<close> defines
  \<^verbatim>\<open>focal_loss_lgb\<close>, \<^verbatim>\<open>focal_loss_lgb_eval_error\<close>,
  \<^verbatim>\<open>focal_loss_lgb_sk\<close> and \<^verbatim>\<open>focal_loss_lgb_eval_error_sk\<close> over numpy
  arrays. The embedding keeps numpy's values and its failures:

  \<^item> a float is a real number or one of the three IEEE special values, and the special
    values follow IEEE 754 as numpy does (\<open>log 0 = -inf\<close>, \<open>0 * inf = nan\<close>,
    \<open>0 / 0 = nan\<close>); the sign of zero is not modelled. The functions are transcribed
    twice. The first transcription computes with exact reals: it decides everything that
    does not depend on rounding (shapes, errors, the two calling conventions, one pass
    against one example at a time). The second rounds every floating-point operation by a
    function \<open>rnd\<close>, of which \<open>binary64\<close> is IEEE 754 rounding to nearest: it decides
    the values the program returns, at extreme scores in particular;
  \<^item> an operand is a Python scalar or a one-dimensional array, and a binary operator
    broadcasts as numpy does, raising \<open>ValueError\<close> on two arrays of different
    lengths neither of which is 1;
  \<^item> a raised exception is the \<open>Inl\<close> of a sum type.
\<close>

subsection \<open>Floats\<close>

datatype npfloat = Fin real | PInf | NInf | NaN

fun np_neg :: "npfloat \<Rightarrow> npfloat" where
  "np_neg (Fin x) = Fin (- x)"
| "np_neg PInf = NInf"
| "np_neg NInf = PInf"
| "np_neg NaN = NaN"

fun np_add :: "npfloat \<Rightarrow> npfloat \<Rightarrow> npfloat" where
  "np_add (Fin x) (Fin y) = Fin (x + y)"
| "np_add (Fin x) PInf = PInf"
| "np_add (Fin x) NInf = NInf"
| "np_add PInf (Fin y) = PInf"
| "np_add PInf PInf = PInf"
| "np_add PInf NInf = NaN"
| "np_add NInf (Fin y) = NInf"
| "np_add NInf NInf = NInf"
| "np_add NInf PInf = NaN"
| "np_add NaN b = NaN"
| "np_add a NaN = NaN"

definition np_sub :: "npfloat \<Rightarrow> npfloat \<Rightarrow> npfloat" where
  "np_sub a b = np_add a (np_neg b)"

text \<open>The sign of an infinite product follows the signs of the factors; zero times
  infinity is \<open>nan\<close>.\<close>

definition signed_inf :: "bool \<Rightarrow> npfloat" where
  "signed_inf positive = (if positive then PInf else NInf)"

fun np_mul :: "npfloat \<Rightarrow> npfloat \<Rightarrow> npfloat" where
  "np_mul (Fin x) (Fin y) = Fin (x * y)"
| "np_mul (Fin x) PInf = (if x = 0 then NaN else signed_inf (0 < x))"
| "np_mul (Fin x) NInf = (if x = 0 then NaN else signed_inf (x < 0))"
| "np_mul PInf (Fin y) = (if y = 0 then NaN else signed_inf (0 < y))"
| "np_mul NInf (Fin y) = (if y = 0 then NaN else signed_inf (y < 0))"
| "np_mul PInf PInf = PInf"
| "np_mul PInf NInf = NInf"
| "np_mul NInf PInf = NInf"
| "np_mul NInf NInf = PInf"
| "np_mul NaN b = NaN"
| "np_mul a NaN = NaN"

text \<open>Division by zero does not raise in numpy: it gives an infinity, or \<open>nan\<close> for
  \<open>0 / 0\<close> (the zero divisor is taken as \<open>+0\<close>).\<close>

fun np_div :: "npfloat \<Rightarrow> npfloat \<Rightarrow> npfloat" where
  "np_div (Fin x) (Fin y) =
     (if y \<noteq> 0 then Fin (x / y) else if x = 0 then NaN else signed_inf (0 < x))"
| "np_div (Fin x) PInf = Fin 0"
| "np_div (Fin x) NInf = Fin 0"
| "np_div PInf (Fin y) = signed_inf (0 \<le> y)"
| "np_div NInf (Fin y) = signed_inf (y < 0)"
| "np_div PInf PInf = NaN"
| "np_div PInf NInf = NaN"
| "np_div NInf PInf = NaN"
| "np_div NInf NInf = NaN"
| "np_div NaN b = NaN"
| "np_div a NaN = NaN"

fun np_exp :: "npfloat \<Rightarrow> npfloat" where
  "np_exp (Fin x) = Fin (exp x)"
| "np_exp PInf = PInf"
| "np_exp NInf = Fin 0"
| "np_exp NaN = NaN"

fun np_log :: "npfloat \<Rightarrow> npfloat" where
  "np_log (Fin x) = (if 0 < x then Fin (ln x) else if x = 0 then NInf else NaN)"
| "np_log PInf = PInf"
| "np_log NInf = NaN"
| "np_log NaN = NaN"

text \<open>\<^verbatim>\<open>base ** g\<close> with a finite Python float \<open>g\<close>, as C's \<open>pow\<close>: anything to
  the power 0 is 1, a negative base has a power only for an integer exponent.\<close>

definition is_integer :: "real \<Rightarrow> bool" where
  "is_integer g = (of_int \<lfloor>g\<rfloor> = g)"

fun np_power :: "npfloat \<Rightarrow> real \<Rightarrow> npfloat" where
  "np_power (Fin x) g =
     (if g = 0 then Fin 1
      else if 0 < x then Fin (x powr g)
      else if x = 0 then (if 0 < g then Fin 0 else PInf)
      else if is_integer g then Fin (x powi \<lfloor>g\<rfloor>)
      else NaN)"
| "np_power PInf g = (if g = 0 then Fin 1 else if 0 < g then PInf else Fin 0)"
| "np_power NInf g =
     (if g = 0 then Fin 1
      else if g < 0 then Fin 0
      else if is_integer g \<and> odd \<lfloor>g\<rfloor> then NInf
      else PInf)"
| "np_power NaN g = (if g = 0 then Fin 1 else NaN)"

subsection \<open>Scalars, arrays and broadcasting\<close>

datatype py_error = ValueError

datatype npval = Scalar npfloat | Array "npfloat list"

type_synonym 'a result = "py_error + 'a"

abbreviation py_float :: "real \<Rightarrow> npval result" where
  "py_float r \<equiv> Inr (Scalar (Fin r))"

fun ufunc1 :: "(npfloat \<Rightarrow> npfloat) \<Rightarrow> npval \<Rightarrow> npval" where
  "ufunc1 f (Scalar x) = Scalar (f x)"
| "ufunc1 f (Array xs) = Array (map f xs)"

fun broadcast :: "(npfloat \<Rightarrow> npfloat \<Rightarrow> npfloat) \<Rightarrow> npval \<Rightarrow> npval \<Rightarrow> npval result" where
  "broadcast f (Scalar x) (Scalar y) = Inr (Scalar (f x y))"
| "broadcast f (Scalar x) (Array ys) = Inr (Array (map (f x) ys))"
| "broadcast f (Array xs) (Scalar y) = Inr (Array (map (\<lambda>x. f x y) xs))"
| "broadcast f (Array xs) (Array ys) =
     (if length xs = length ys then Inr (Array (map2 f xs ys))
      else if length xs = 1 then Inr (Array (map (f (hd xs)) ys))
      else if length ys = 1 then Inr (Array (map (\<lambda>x. f x (hd ys)) xs))
      else Inl ValueError)"

text \<open>An operator applied to operands whose evaluation raised raises too.\<close>

definition lift1 :: "(npfloat \<Rightarrow> npfloat) \<Rightarrow> npval result \<Rightarrow> npval result" where
  "lift1 f u = (case u of Inl e \<Rightarrow> Inl e | Inr a \<Rightarrow> Inr (ufunc1 f a))"

definition lift2 ::
  "(npfloat \<Rightarrow> npfloat \<Rightarrow> npfloat) \<Rightarrow> npval result \<Rightarrow> npval result \<Rightarrow> npval result" where
  "lift2 f u v =
     (case u of Inl e \<Rightarrow> Inl e
      | Inr a \<Rightarrow> (case v of Inl e \<Rightarrow> Inl e | Inr b \<Rightarrow> broadcast f a b))"

definition v_neg :: "npval result \<Rightarrow> npval result" where
  "v_neg = lift1 np_neg"

definition v_exp :: "npval result \<Rightarrow> npval result" where
  "v_exp = lift1 np_exp"

definition v_log :: "npval result \<Rightarrow> npval result" where
  "v_log = lift1 np_log"

definition v_pow :: "npval result \<Rightarrow> real \<Rightarrow> npval result" where
  "v_pow u g = lift1 (\<lambda>x. np_power x g) u"

definition v_add :: "npval result \<Rightarrow> npval result \<Rightarrow> npval result" where
  "v_add = lift2 np_add"

definition v_sub :: "npval result \<Rightarrow> npval result \<Rightarrow> npval result" where
  "v_sub = lift2 np_sub"

definition v_mul :: "npval result \<Rightarrow> npval result \<Rightarrow> npval result" where
  "v_mul = lift2 np_mul"

definition v_div :: "npval result \<Rightarrow> npval result \<Rightarrow> npval result" where
  "v_div = lift2 np_div"

text \<open>\<^verbatim>\<open>np.mean\<close>: the sum over the count. On an empty array the count is 0 and the
  quotient \<open>0 / 0\<close> is \<open>nan\<close> (numpy warns, and does not raise).\<close>

definition np_sum :: "npfloat list \<Rightarrow> npfloat" where
  "np_sum xs = foldl np_add (Fin 0) xs"

fun np_mean :: "npval \<Rightarrow> npfloat" where
  "np_mean (Scalar x) = x"
| "np_mean (Array xs) = np_div (np_sum xs) (Fin (real (length xs)))"

subsection \<open>Numerical differentiation\<close>

text \<open>
  Modelled from the spec: \<^verbatim>\<open>scipy.misc.derivative\<close> is a library routine, not part
  of the repository's sources; the spec describes it as a central-difference first- and
  second-derivative estimator with a small fixed step. The model follows the routine at
  its default \<^verbatim>\<open>order=3\<close>: three sample points \<open>x0 - dx\<close>, \<open>x0\<close>, \<open>x0 + dx\<close>
  weighted by \<open>[-1/2, 0, 1/2]\<close> for \<open>n = 1\<close> and by \<open>[1, -2, 1]\<close> for \<open>n = 2\<close>
  (and by \<open>[0, 1, 0]\<close> for \<open>n = 0\<close>, which the notebook never asks for), accumulated
  from \<open>val = 0.0\<close> in the loop
  \<^verbatim>\<open>for k in range(order): val += weights[k]*func(x0+(k-ho)*dx)\<close> with
  \<open>ho = 1\<close>, and divided by \<open>dx ** n\<close>; an \<open>n\<close> above 2 is refused (\<open>order\<close> must
  be at least \<open>n + 1\<close>). The three values of \<open>func\<close> have the same shape here, so
  that the in-place \<^verbatim>\<open>+=\<close> is the plain sum.
\<close>

definition central_diff_weights :: "nat \<Rightarrow> real list" where
  "central_diff_weights n =
     (if n = 1 then [- 1 / 2, 0, 1 / 2] else if n = 2 then [1, - 2, 1] else [0, 1, 0])"

fun derivative_loop ::
  "(npval result \<Rightarrow> npval result) \<Rightarrow> npval result \<Rightarrow> real \<Rightarrow> real list \<Rightarrow> int \<Rightarrow>
   npval result \<Rightarrow> npval result" where
  "derivative_loop func x0 dx [] k val = val"
| "derivative_loop func x0 dx (w # weights) k val =
     derivative_loop func x0 dx weights (k + 1)
       (v_add val (v_mul (py_float w) (func (v_add x0 (py_float (real_of_int (k - 1) * dx))))))"

definition derivative ::
  "(npval result \<Rightarrow> npval result) \<Rightarrow> npval result \<Rightarrow> real \<Rightarrow> nat \<Rightarrow> npval result" where
  "derivative func x0 dx n =
     (if 3 < n + 1 then Inl ValueError
      else v_div (derivative_loop func x0 dx (central_diff_weights n) 0 (py_float 0))
             (py_float (dx ^ n)))"

subsection \<open>The notebook's functions\<close>

record dataset =
  label :: npval

definition pair_result :: "'a result \<Rightarrow> 'b result \<Rightarrow> ('a \<times> 'b) result" where
  "pair_result u v =
     (case u of Inl e \<Rightarrow> Inl e
      | Inr a \<Rightarrow> (case v of Inl e \<Rightarrow> Inl e | Inr b \<Rightarrow> Inr (a, b)))"

text \<open>The inner function \<^verbatim>\<open>fl(x, t)\<close> of \<^verbatim>\<open>focal_loss_lgb\<close>, with the captured
  \<open>a\<close> and \<open>g\<close> as its first arguments. Python reads \<^verbatim>\<open>-(A) * (B ** g) * (C)\<close> as
  \<open>((-A) * (B ** g)) * C\<close>.\<close>

definition fl :: "real \<Rightarrow> real \<Rightarrow> npval result \<Rightarrow> npval result \<Rightarrow> npval result" where
  "fl a g x t =
     (let p = v_div (py_float 1) (v_add (py_float 1) (v_exp (v_neg x)))
      in v_mul
           (v_mul
              (v_neg (v_add (v_mul (py_float a) t)
                            (v_mul (py_float (1 - a)) (v_sub (py_float 1) t))))
              (v_pow (v_sub (py_float 1)
                            (v_add (v_mul t p)
                                   (v_mul (v_sub (py_float 1) t) (v_sub (py_float 1) p))))
                     g))
           (v_add (v_mul t (v_log p))
                  (v_mul (v_sub (py_float 1) t) (v_log (v_sub (py_float 1) p)))))"

definition focal_loss_lgb ::
  "npval \<Rightarrow> dataset \<Rightarrow> real \<Rightarrow> real \<Rightarrow> (npval \<times> npval) result" where
  "focal_loss_lgb y_pred dtrain alpha gamma =
     (let a = alpha; g = gamma;
          y_true = Inr (label dtrain);
          partial_fl = (\<lambda>x. fl a g x y_true);
          grad = derivative partial_fl (Inr y_pred) (1 / 10 ^ 6) 1;
          hess = derivative partial_fl (Inr y_pred) (1 / 10 ^ 6) 2
      in pair_result grad hess)"

definition focal_loss_lgb_eval_error ::
  "npval \<Rightarrow> dataset \<Rightarrow> real \<Rightarrow> real \<Rightarrow> (string \<times> npfloat \<times> bool) result" where
  "focal_loss_lgb_eval_error y_pred dtrain alpha gamma =
     (let a = alpha; g = gamma;
          y_true = Inr (label dtrain);
          p = v_div (py_float 1) (v_add (py_float 1) (v_exp (v_neg (Inr y_pred))));
          loss =
            v_mul
              (v_mul
                 (v_neg (v_add (v_mul (py_float a) y_true)
                               (v_mul (py_float (1 - a)) (v_sub (py_float 1) y_true))))
                 (v_pow (v_sub (py_float 1)
                               (v_add (v_mul y_true p)
                                      (v_mul (v_sub (py_float 1) y_true)
                                             (v_sub (py_float 1) p))))
                        g))
              (v_add (v_mul y_true (v_log p))
                     (v_mul (v_sub (py_float 1) y_true) (v_log (v_sub (py_float 1) p))))
      in case loss of
           Inl e \<Rightarrow> Inl e
         | Inr l \<Rightarrow> Inr (''focal_loss'', np_mean l, False))"

text \<open>The scikit-learn variants take the label vector itself, first.\<close>

definition fl_sk :: "real \<Rightarrow> real \<Rightarrow> npval result \<Rightarrow> npval result \<Rightarrow> npval result" where
  "fl_sk a g x t =
     (let p = v_div (py_float 1) (v_add (py_float 1) (v_exp (v_neg x)))
      in v_mul
           (v_mul
              (v_neg (v_add (v_mul (py_float a) t)
                            (v_mul (py_float (1 - a)) (v_sub (py_float 1) t))))
              (v_pow (v_sub (py_float 1)
                            (v_add (v_mul t p)
                                   (v_mul (v_sub (py_float 1) t) (v_sub (py_float 1) p))))
                     g))
           (v_add (v_mul t (v_log p))
                  (v_mul (v_sub (py_float 1) t) (v_log (v_sub (py_float 1) p)))))"

definition focal_loss_lgb_sk ::
  "npval \<Rightarrow> npval \<Rightarrow> real \<Rightarrow> real \<Rightarrow> (npval \<times> npval) result" where
  "focal_loss_lgb_sk y_true y_pred alpha gamma =
     (let a = alpha; g = gamma;
          partial_fl = (\<lambda>x. fl_sk a g x (Inr y_true));
          grad = derivative partial_fl (Inr y_pred) (1 / 10 ^ 6) 1;
          hess = derivative partial_fl (Inr y_pred) (1 / 10 ^ 6) 2
      in pair_result grad hess)"

definition focal_loss_lgb_eval_error_sk ::
  "npval \<Rightarrow> npval \<Rightarrow> real \<Rightarrow> real \<Rightarrow> (string \<times> npfloat \<times> bool) result" where
  "focal_loss_lgb_eval_error_sk y_true y_pred alpha gamma =
     (let a = alpha; g = gamma;
          p = v_div (py_float 1) (v_add (py_float 1) (v_exp (v_neg (Inr y_pred))));
          loss =
            v_mul
              (v_mul
                 (v_neg (v_add (v_mul (py_float a) (Inr y_true))
                               (v_mul (py_float (1 - a))
                                      (v_sub (py_float 1) (Inr y_true)))))
                 (v_pow (v_sub (py_float 1)
                               (v_add (v_mul (Inr y_true) p)
                                      (v_mul (v_sub (py_float 1) (Inr y_true))
                                             (v_sub (py_float 1) p))))
                        g))
              (v_add (v_mul (Inr y_true) (v_log p))
                     (v_mul (v_sub (py_float 1) (Inr y_true))
                            (v_log (v_sub (py_float 1) p))))
      in case loss of
           Inl e \<Rightarrow> Inl e
         | Inr l \<Rightarrow> Inr (''focal_loss'', np_mean l, False))"

subsection \<open>The closed form of the specification\<close>

text \<open>The spec's mathematical contract, over the reals, with \<open>p\<close> the sigmoid of the
  score: modulating factor, class weight, cross entropy and their product.\<close>

definition sigmoid :: "real \<Rightarrow> real" where
  "sigmoid x = 1 / (1 + exp (- x))"

definition modulating_factor :: "real \<Rightarrow> real \<Rightarrow> real \<Rightarrow> real" where
  "modulating_factor gamma p t = (1 - (t * p + (1 - t) * (1 - p))) powr gamma"

definition class_weight :: "real \<Rightarrow> real \<Rightarrow> real" where
  "class_weight alpha t = alpha * t + (1 - alpha) * (1 - t)"

definition cross_entropy :: "real \<Rightarrow> real \<Rightarrow> real" where
  "cross_entropy p t = t * ln p + (1 - t) * ln (1 - p)"

definition loss :: "real \<Rightarrow> real \<Rightarrow> real \<Rightarrow> real \<Rightarrow> real" where
  "loss alpha gamma x t =
     - class_weight alpha t * modulating_factor gamma (sigmoid x) t
       * cross_entropy (sigmoid x) t"

text \<open>The reduction the spec's glossary names for \<open>gamma = 0\<close>: the cross entropy
  weighted by the class weight.\<close>

definition weighted_cross_entropy :: "real \<Rightarrow> real \<Rightarrow> real \<Rightarrow> real" where
  "weighted_cross_entropy alpha x t =
     - (alpha * t + (1 - alpha) * (1 - t))
       * (t * ln (sigmoid x) + (1 - t) * ln (1 - sigmoid x))"

text \<open>The central finite differences the spec's consistency check compares against.\<close>

definition central_difference_first :: "(real \<Rightarrow> real) \<Rightarrow> real \<Rightarrow> real \<Rightarrow> real" where
  "central_difference_first f x h = (f (x + h) - f (x - h)) / (2 * h)"

definition central_difference_second :: "(real \<Rightarrow> real) \<Rightarrow> real \<Rightarrow> real \<Rightarrow> real" where
  "central_difference_second f x h = (f (x + h) - 2 * f x + f (x - h)) / h ^ 2"

text \<open>Two array lengths that numpy broadcasts against each other.\<close>

definition broadcastable :: "nat \<Rightarrow> nat \<Rightarrow> bool" where
  "broadcastable n m = (n = m \<or> n = 1 \<or> m = 1)"

subsection \<open>Rounded arithmetic\<close>

text \<open>
  The program runs in IEEE 754 binary64. The definitions above compute with exact reals;
  the ones below repeat the notebook's functions with every floating-point operation
  rounded: an operation on floats gives the exact result of the operation above, rounded
  by a function \<open>rnd\<close> from the reals to the floats when that result is finite. The
  negation is exact. \<open>rnd = Fin\<close> gives the exact arithmetic back; \<open>rnd = binary64\<close>
  is the arithmetic of the program.
\<close>

definition rounded :: "(real \<Rightarrow> npfloat) \<Rightarrow> npfloat \<Rightarrow> npfloat" where
  "rounded rnd v = (case v of Fin z \<Rightarrow> rnd z | PInf \<Rightarrow> PInf | NInf \<Rightarrow> NInf | NaN \<Rightarrow> NaN)"

definition e_add :: "(real \<Rightarrow> npfloat) \<Rightarrow> npfloat \<Rightarrow> npfloat \<Rightarrow> npfloat" where
  "e_add rnd a b = rounded rnd (np_add a b)"

definition e_sub :: "(real \<Rightarrow> npfloat) \<Rightarrow> npfloat \<Rightarrow> npfloat \<Rightarrow> npfloat" where
  "e_sub rnd a b = rounded rnd (np_sub a b)"

definition e_mul :: "(real \<Rightarrow> npfloat) \<Rightarrow> npfloat \<Rightarrow> npfloat \<Rightarrow> npfloat" where
  "e_mul rnd a b = rounded rnd (np_mul a b)"

definition e_div :: "(real \<Rightarrow> npfloat) \<Rightarrow> npfloat \<Rightarrow> npfloat \<Rightarrow> npfloat" where
  "e_div rnd a b = rounded rnd (np_div a b)"

definition e_exp :: "(real \<Rightarrow> npfloat) \<Rightarrow> npfloat \<Rightarrow> npfloat" where
  "e_exp rnd a = rounded rnd (np_exp a)"

definition e_log :: "(real \<Rightarrow> npfloat) \<Rightarrow> npfloat \<Rightarrow> npfloat" where
  "e_log rnd a = rounded rnd (np_log a)"

definition e_power :: "(real \<Rightarrow> npfloat) \<Rightarrow> npfloat \<Rightarrow> real \<Rightarrow> npfloat" where
  "e_power rnd a g = rounded rnd (np_power a g)"

definition r_add ::
  "(real \<Rightarrow> npfloat) \<Rightarrow> npval result \<Rightarrow> npval result \<Rightarrow> npval result" where
  "r_add rnd = lift2 (e_add rnd)"

definition r_sub ::
  "(real \<Rightarrow> npfloat) \<Rightarrow> npval result \<Rightarrow> npval result \<Rightarrow> npval result" where
  "r_sub rnd = lift2 (e_sub rnd)"

definition r_mul ::
  "(real \<Rightarrow> npfloat) \<Rightarrow> npval result \<Rightarrow> npval result \<Rightarrow> npval result" where
  "r_mul rnd = lift2 (e_mul rnd)"

definition r_div ::
  "(real \<Rightarrow> npfloat) \<Rightarrow> npval result \<Rightarrow> npval result \<Rightarrow> npval result" where
  "r_div rnd = lift2 (e_div rnd)"

definition r_exp :: "(real \<Rightarrow> npfloat) \<Rightarrow> npval result \<Rightarrow> npval result" where
  "r_exp rnd = lift1 (e_exp rnd)"

definition r_log :: "(real \<Rightarrow> npfloat) \<Rightarrow> npval result \<Rightarrow> npval result" where
  "r_log rnd = lift1 (e_log rnd)"

definition r_pow :: "(real \<Rightarrow> npfloat) \<Rightarrow> npval result \<Rightarrow> real \<Rightarrow> npval result" where
  "r_pow rnd u g = lift1 (\<lambda>x. e_power rnd x g) u"

text \<open>\<^verbatim>\<open>np.mean\<close> with every addition of the running sum and the final division
  rounded.\<close>

definition np_sum_rounded :: "(real \<Rightarrow> npfloat) \<Rightarrow> npfloat list \<Rightarrow> npfloat" where
  "np_sum_rounded rnd xs = foldl (e_add rnd) (Fin 0) xs"

fun np_mean_rounded :: "(real \<Rightarrow> npfloat) \<Rightarrow> npval \<Rightarrow> npfloat" where
  "np_mean_rounded rnd (Scalar x) = x"
| "np_mean_rounded rnd (Array xs) =
     e_div rnd (np_sum_rounded rnd xs) (Fin (real (length xs)))"

text \<open>\<^verbatim>\<open>scipy.misc.derivative\<close> as above, with the step a float and every operation
  rounded; \<^verbatim>\<open>prod((dx,)*n)\<close> is \<open>dx\<close> itself for \<open>n = 1\<close> and the rounded
  \<open>dx * dx\<close> for \<open>n = 2\<close>.\<close>

fun derivative_loop_rounded ::
  "(real \<Rightarrow> npfloat) \<Rightarrow> (npval result \<Rightarrow> npval result) \<Rightarrow> npval result \<Rightarrow> npval result \<Rightarrow>
   real list \<Rightarrow> int \<Rightarrow> npval result \<Rightarrow> npval result" where
  "derivative_loop_rounded rnd func x0 dx [] k val = val"
| "derivative_loop_rounded rnd func x0 dx (w # weights) k val =
     derivative_loop_rounded rnd func x0 dx weights (k + 1)
       (r_add rnd val
          (r_mul rnd (py_float w)
             (func (r_add rnd x0 (r_mul rnd (py_float (real_of_int (k - 1))) dx)))))"

definition dx_product :: "(real \<Rightarrow> npfloat) \<Rightarrow> npval result \<Rightarrow> nat \<Rightarrow> npval result" where
  "dx_product rnd dx n = (if n = 0 then py_float 1 else if n = 1 then dx else r_mul rnd dx dx)"

definition derivative_rounded ::
  "(real \<Rightarrow> npfloat) \<Rightarrow> (npval result \<Rightarrow> npval result) \<Rightarrow> npval result \<Rightarrow> npval result \<Rightarrow>
   nat \<Rightarrow> npval result" where
  "derivative_rounded rnd func x0 dx n =
     (if 3 < n + 1 then Inl ValueError
      else r_div rnd
             (derivative_loop_rounded rnd func x0 dx (central_diff_weights n) 0 (py_float 0))
             (dx_product rnd dx n))"

text \<open>The notebook's functions once more, operation by operation as above. The literal
  \<^verbatim>\<open>1e-6\<close> is the float nearest to \<open>10\<^sup>-\<^sup>6\<close>, and \<^verbatim>\<open>1-a\<close> is a float
  subtraction.\<close>

definition fl_rounded ::
  "(real \<Rightarrow> npfloat) \<Rightarrow> real \<Rightarrow> real \<Rightarrow> npval result \<Rightarrow> npval result \<Rightarrow> npval result" where
  "fl_rounded rnd a g x t =
     (let p = r_div rnd (py_float 1) (r_add rnd (py_float 1) (r_exp rnd (v_neg x)))
      in r_mul rnd
           (r_mul rnd
              (v_neg (r_add rnd (r_mul rnd (py_float a) t)
                        (r_mul rnd (Inr (Scalar (rnd (1 - a)))) (r_sub rnd (py_float 1) t))))
              (r_pow rnd
                 (r_sub rnd (py_float 1)
                    (r_add rnd (r_mul rnd t p)
                       (r_mul rnd (r_sub rnd (py_float 1) t) (r_sub rnd (py_float 1) p))))
                 g))
           (r_add rnd (r_mul rnd t (r_log rnd p))
              (r_mul rnd (r_sub rnd (py_float 1) t) (r_log rnd (r_sub rnd (py_float 1) p)))))"

definition focal_loss_lgb_rounded ::
  "(real \<Rightarrow> npfloat) \<Rightarrow> npval \<Rightarrow> dataset \<Rightarrow> real \<Rightarrow> real \<Rightarrow> (npval \<times> npval) result" where
  "focal_loss_lgb_rounded rnd y_pred dtrain alpha gamma =
     (let a = alpha; g = gamma;
          y_true = Inr (label dtrain);
          partial_fl = (\<lambda>x. fl_rounded rnd a g x y_true);
          dx = Inr (Scalar (rnd (1 / 10 ^ 6)));
          grad = derivative_rounded rnd partial_fl (Inr y_pred) dx 1;
          hess = derivative_rounded rnd partial_fl (Inr y_pred) dx 2
      in pair_result grad hess)"

definition focal_loss_lgb_eval_error_rounded ::
  "(real \<Rightarrow> npfloat) \<Rightarrow> npval \<Rightarrow> dataset \<Rightarrow> real \<Rightarrow> real \<Rightarrow>
   (string \<times> npfloat \<times> bool) result" where
  "focal_loss_lgb_eval_error_rounded rnd y_pred dtrain alpha gamma =
     (let a = alpha; g = gamma;
          y_true = Inr (label dtrain);
          p = r_div rnd (py_float 1)
                (r_add rnd (py_float 1) (r_exp rnd (v_neg (Inr y_pred))));
          loss =
            r_mul rnd
              (r_mul rnd
                 (v_neg (r_add rnd (r_mul rnd (py_float a) y_true)
                           (r_mul rnd (Inr (Scalar (rnd (1 - a))))
                              (r_sub rnd (py_float 1) y_true))))
                 (r_pow rnd
                    (r_sub rnd (py_float 1)
                       (r_add rnd (r_mul rnd y_true p)
                          (r_mul rnd (r_sub rnd (py_float 1) y_true)
                             (r_sub rnd (py_float 1) p))))
                    g))
              (r_add rnd (r_mul rnd y_true (r_log rnd p))
                 (r_mul rnd (r_sub rnd (py_float 1) y_true)
                    (r_log rnd (r_sub rnd (py_float 1) p))))
      in case loss of
           Inl e \<Rightarrow> Inl e
         | Inr l \<Rightarrow> Inr (''focal_loss'', np_mean_rounded rnd l, False))"


subsection \<open>Binary64\<close>

text \<open>
  IEEE 754 rounding to nearest, ties to even, into binary64: a real \<open>x\<close> with
  \<open>2\<^sup>e \<le> |x| < 2\<^bsup>e + 1\<^esup>\<close> goes to the nearest multiple of the spacing
  \<open>2\<^bsup>e - 52\<^esup>\<close>, where the exponent \<open>e\<close> is not taken below \<open>-1022\<close> (so that the
  subnormal numbers are the multiples of \<open>2\<^bsup>-1074\<^esup>\<close> and a small enough \<open>x\<close>
  underflows to 0), and to an infinity when that multiple is \<open>2\<^bsup>1024\<^esup>\<close> or more in
  magnitude. The library functions
  \<^verbatim>\<open>np.exp\<close>, \<^verbatim>\<open>np.log\<close> and \<^verbatim>\<open>**\<close> are taken as correctly rounded.
\<close>

definition round_half_even :: "real \<Rightarrow> int" where
  "round_half_even y =
     (let f = \<lfloor>y\<rfloor>; d = y - of_int f
      in if d < 1 / 2 then f else if 1 / 2 < d then f + 1 else if even f then f else f + 1)"

definition exponent :: "real \<Rightarrow> int" where
  "exponent x = max \<lfloor>log 2 \<bar>x\<bar>\<rfloor> (- 1022)"

definition spacing :: "real \<Rightarrow> real" where
  "spacing x = 2 powr (of_int (exponent x) - 52)"

definition binary64 :: "real \<Rightarrow> npfloat" where
  "binary64 x =
     (if x = 0 then Fin 0
      else let r = of_int (round_half_even (x / spacing x)) * spacing x
           in if 2 powr 1024 \<le> \<bar>r\<bar> then signed_inf (0 < x) else Fin r)"

subsection \<open>The closed form in rounded arithmetic\<close>

text \<open>The four lines of the spec's mathematical contract, computed on floats.\<close>

definition sigmoid_rounded :: "(real \<Rightarrow> npfloat) \<Rightarrow> npfloat \<Rightarrow> npfloat" where
  "sigmoid_rounded rnd x = e_div rnd (Fin 1) (e_add rnd (Fin 1) (e_exp rnd (np_neg x)))"

definition modulating_factor_rounded ::
  "(real \<Rightarrow> npfloat) \<Rightarrow> real \<Rightarrow> npfloat \<Rightarrow> npfloat \<Rightarrow> npfloat" where
  "modulating_factor_rounded rnd gamma p t =
     e_power rnd
       (e_sub rnd (Fin 1)
          (e_add rnd (e_mul rnd t p) (e_mul rnd (e_sub rnd (Fin 1) t) (e_sub rnd (Fin 1) p))))
       gamma"

definition class_weight_rounded :: "(real \<Rightarrow> npfloat) \<Rightarrow> real \<Rightarrow> npfloat \<Rightarrow> npfloat" where
  "class_weight_rounded rnd alpha t =
     e_add rnd (e_mul rnd (Fin alpha) t) (e_mul rnd (rnd (1 - alpha)) (e_sub rnd (Fin 1) t))"

definition cross_entropy_rounded :: "(real \<Rightarrow> npfloat) \<Rightarrow> npfloat \<Rightarrow> npfloat \<Rightarrow> npfloat" where
  "cross_entropy_rounded rnd p t =
     e_add rnd (e_mul rnd t (e_log rnd p))
       (e_mul rnd (e_sub rnd (Fin 1) t) (e_log rnd (e_sub rnd (Fin 1) p)))"

definition loss_rounded ::
  "(real \<Rightarrow> npfloat) \<Rightarrow> real \<Rightarrow> real \<Rightarrow> npfloat \<Rightarrow> npfloat \<Rightarrow> npfloat" where
  "loss_rounded rnd alpha gamma x t =
     e_mul rnd
       (e_mul rnd (np_neg (class_weight_rounded rnd alpha t))
          (modulating_factor_rounded rnd gamma (sigmoid_rounded rnd x) t))
       (cross_entropy_rounded rnd (sigmoid_rounded rnd x) t)"

definition weighted_cross_entropy_rounded ::
  "(real \<Rightarrow> npfloat) \<Rightarrow> real \<Rightarrow> npfloat \<Rightarrow> npfloat \<Rightarrow> npfloat" where
  "weighted_cross_entropy_rounded rnd alpha x t =
     e_mul rnd (np_neg (class_weight_rounded rnd alpha t))
       (cross_entropy_rounded rnd (sigmoid_rounded rnd x) t)"

text \<open>What the theorems ask of a rounding function. It keeps the order of a real with 0
  and with 1; and a float it has produced, negated, is a float it leaves alone.\<close>

fun nonneg :: "npfloat \<Rightarrow> bool" where
  "nonneg (Fin r) = (0 \<le> r)"
| "nonneg PInf = True"
| "nonneg NInf = False"
| "nonneg NaN = False"

fun nonpos :: "npfloat \<Rightarrow> bool" where
  "nonpos (Fin r) = (r \<le> 0)"
| "nonpos PInf = False"
| "nonpos NInf = True"
| "nonpos NaN = False"

fun at_least_one :: "npfloat \<Rightarrow> bool" where
  "at_least_one (Fin r) = (1 \<le> r)"
| "at_least_one PInf = True"
| "at_least_one NInf = False"
| "at_least_one NaN = False"

fun at_most_one :: "npfloat \<Rightarrow> bool" where
  "at_most_one (Fin r) = (r \<le> 1)"
| "at_most_one PInf = False"
| "at_most_one NInf = True"
| "at_most_one NaN = False"

definition keeps_order :: "(real \<Rightarrow> npfloat) \<Rightarrow> bool" where
  "keeps_order rnd =
     (\<forall>y. (0 \<le> y \<longrightarrow> nonneg (rnd y)) \<and> (y \<le> 0 \<longrightarrow> nonpos (rnd y))
        \<and> (1 \<le> y \<longrightarrow> at_least_one (rnd y)) \<and> (y \<le> 1 \<longrightarrow> at_most_one (rnd y)))"

definition keeps_floats :: "(real \<Rightarrow> npfloat) \<Rightarrow> bool" where
  "keeps_floats rnd = (rnd 1 = Fin 1 \<and> (\<forall>z r. rnd z = Fin r \<longrightarrow> rnd (- r) = Fin (- r)))"

text \<open>A float in the unit interval.\<close>

definition in_unit :: "npfloat \<Rightarrow> bool" where
  "in_unit v = (nonneg v \<and> at_most_one v)"

subsection \<open>What the vectorised expressions compute on one element\<close>

text \<open>The expression of \<^verbatim>\<open>fl\<close> on a single score and label, and the three-point
  difference quotient of \<^verbatim>\<open>derivative\<close> on a single point. They are related to the
  array programs by the lemmas \<open>fl_scalar\<close>, \<open>fl_arrays\<close> and \<open>derivative_arrays\<close>
  below.\<close>

definition fl_elem :: "real \<Rightarrow> real \<Rightarrow> npfloat \<Rightarrow> npfloat \<Rightarrow> npfloat" where
  "fl_elem a g x t =
     (let p = np_div (Fin 1) (np_add (Fin 1) (np_exp (np_neg x)))
      in np_mul
           (np_mul
              (np_neg (np_add (np_mul (Fin a) t) (np_mul (Fin (1 - a)) (np_sub (Fin 1) t))))
              (np_power (np_sub (Fin 1)
                           (np_add (np_mul t p) (np_mul (np_sub (Fin 1) t) (np_sub (Fin 1) p))))
                        g))
           (np_add (np_mul t (np_log p))
                   (np_mul (np_sub (Fin 1) t) (np_log (np_sub (Fin 1) p)))))"

definition deriv_elem :: "(npfloat \<Rightarrow> npfloat) \<Rightarrow> real \<Rightarrow> nat \<Rightarrow> npfloat \<Rightarrow> npfloat" where
  "deriv_elem f dx n x =
     np_div
       (np_add
          (np_add
             (np_add (Fin 0)
                (np_mul (Fin (central_diff_weights n ! 0)) (f (np_add x (Fin (- dx))))))
             (np_mul (Fin (central_diff_weights n ! 1)) (f (np_add x (Fin 0)))))
          (np_mul (Fin (central_diff_weights n ! 2)) (f (np_add x (Fin dx)))))
       (Fin (dx ^ n))"

definition grad_elem :: "real \<Rightarrow> real \<Rightarrow> npfloat \<Rightarrow> npfloat \<Rightarrow> npfloat" where
  "grad_elem a g x t = deriv_elem (\<lambda>y. fl_elem a g y t) (1 / 10 ^ 6) 1 x"

definition hess_elem :: "real \<Rightarrow> real \<Rightarrow> npfloat \<Rightarrow> npfloat \<Rightarrow> npfloat" where
  "hess_elem a g x t = deriv_elem (\<lambda>y. fl_elem a g y t) (1 / 10 ^ 6) 2 x"

section \<open>Arrays: how the operators act on them\<close>

lemma lift1_Array [simp]: "lift1 f (Inr (Array xs)) = Inr (Array (map f xs))"
  by (simp add: lift1_def)

lemma lift1_Scalar [simp]: "lift1 f (Inr (Scalar x)) = Inr (Scalar (f x))"
  by (simp add: lift1_def)

lemma lift1_Inl [simp]: "lift1 f (Inl e) = Inl e"
  by (simp add: lift1_def)

lemma lift2_Inl [simp]: "lift2 f (Inl e) v = Inl e" "lift2 f (Inr a) (Inl e) = Inl e"
  by (simp_all add: lift2_def)

lemma lift2_Inl_right: "lift2 f u (Inl e) = Inl ValueError"
proof (cases u)
  case (Inl e')
  then show ?thesis by (cases e') simp
next
  case (Inr b)
  then show ?thesis by (cases e) simp
qed

lemma lift2_Scalar_Scalar [simp]:
  "lift2 f (Inr (Scalar x)) (Inr (Scalar y)) = Inr (Scalar (f x y))"
  by (simp add: lift2_def)

lemma lift2_Scalar_Array [simp]:
  "lift2 f (Inr (Scalar x)) (Inr (Array ys)) = Inr (Array (map (f x) ys))"
  by (simp add: lift2_def)

lemma lift2_Array_Scalar [simp]:
  "lift2 f (Inr (Array xs)) (Inr (Scalar y)) = Inr (Array (map (\<lambda>x. f x y) xs))"
  by (simp add: lift2_def)

lemma lift2_Array_Array:
  "length xs = length ys \<Longrightarrow>
   lift2 f (Inr (Array xs)) (Inr (Array ys)) = Inr (Array (map2 f xs ys))"
  by (simp add: lift2_def)

lemma lift2_Array_single:
  "lift2 f (Inr (Array xs)) (Inr (Array [y])) = Inr (Array (map (\<lambda>x. f x y) xs))"
  by (cases xs rule: list.exhaust; cases "tl xs") (auto simp add: lift2_def)

lemma lift2_single_Array:
  "lift2 f (Inr (Array [x])) (Inr (Array ys)) = Inr (Array (map (f x) ys))"
  by (cases ys rule: list.exhaust; cases "tl ys") (auto simp add: lift2_def)

lemma lift2_Array_mismatch:
  "length xs \<noteq> length ys \<Longrightarrow> length xs \<noteq> 1 \<Longrightarrow> length ys \<noteq> 1 \<Longrightarrow>
   lift2 f (Inr (Array xs)) (Inr (Array ys)) = Inl ValueError"
  by (simp add: lift2_def)

lemmas v_defs =
  v_neg_def v_exp_def v_log_def v_pow_def v_add_def v_sub_def v_mul_def v_div_def

subsection \<open>The inner function on scalars and on arrays\<close>

lemma fl_scalar:
  "fl a g (Inr (Scalar x)) (Inr (Scalar t)) = Inr (Scalar (fl_elem a g x t))"
  by (simp add: fl_def fl_elem_def v_defs Let_def)

lemma fl_arrays:
  assumes "length ts = length xs"
  shows "fl a g (Inr (Array xs)) (Inr (Array ts)) = Inr (Array (map2 (fl_elem a g) xs ts))"
  using assms
  apply (simp add: fl_def v_defs Let_def lift2_Array_Array)
  apply (rule nth_equalityI)
   apply simp
  apply (simp add: fl_elem_def Let_def)
  done

lemma fl_single_pred:
  "fl a g (Inr (Array [x])) (Inr (Array ts)) = Inr (Array (map (fl_elem a g x) ts))"
  apply (simp add: fl_def v_defs Let_def lift2_Array_single lift2_Array_Array)
  apply (rule nth_equalityI)
   apply simp
  apply (simp add: fl_elem_def Let_def)
  done

lemma fl_single_label:
  "fl a g (Inr (Array xs)) (Inr (Array [t])) = Inr (Array (map (\<lambda>x. fl_elem a g x t) xs))"
  apply (simp add: fl_def v_defs Let_def lift2_single_Array lift2_Array_Array)
  apply (rule nth_equalityI)
   apply simp
  apply (simp add: fl_elem_def Let_def)
  done

lemma fl_mismatch:
  "length xs \<noteq> length ts \<Longrightarrow> length xs \<noteq> 1 \<Longrightarrow> length ts \<noteq> 1 \<Longrightarrow>
   fl a g (Inr (Array xs)) (Inr (Array ts)) = Inl ValueError"
  by (simp add: fl_def v_defs Let_def lift2_Array_mismatch lift2_Inl_right)

lemma fl_sk_eq: "fl_sk a g x t = fl a g x t"
  by (simp add: fl_sk_def fl_def)

subsection \<open>The difference quotients on arrays\<close>

lemma derivative_unroll:
  "n \<le> 2 \<Longrightarrow> derivative func x0 dx n =
     v_div
       (v_add
          (v_add
             (v_add (py_float 0)
                (v_mul (py_float (central_diff_weights n ! 0))
                   (func (v_add x0 (py_float (- dx))))))
             (v_mul (py_float (central_diff_weights n ! 1)) (func (v_add x0 (py_float 0)))))
          (v_mul (py_float (central_diff_weights n ! 2)) (func (v_add x0 (py_float dx)))))
       (py_float (dx ^ n))"
  by (simp add: derivative_def central_diff_weights_def)

lemma derivative_arrays:
  assumes n: "n \<le> 2" and len: "length ts = length xs"
    and func: "\<And>ys. length ys = length xs \<Longrightarrow>
                 func (Inr (Array ys)) = Inr (Array (map2 f ys ts))"
  shows "derivative func (Inr (Array xs)) dx n =
         Inr (Array (map2 (\<lambda>x t. deriv_elem (\<lambda>y. f y t) dx n x) xs ts))"
  using len
  apply (simp add: derivative_unroll [OF n] v_defs func lift2_Array_Array)
  apply (rule nth_equalityI)
   apply simp
  apply (simp add: deriv_elem_def)
  done

lemma derivative_Inl:
  assumes n: "n \<le> 2"
    and func: "\<And>ys. length ys = length xs \<Longrightarrow> func (Inr (Array ys)) = Inl e"
  shows "derivative func (Inr (Array xs)) dx n = Inl e"
  by (cases e) (simp add: derivative_unroll [OF n] v_defs func lift2_Inl_right)

lemma derivative_shape:
  assumes n: "n \<le> 2"
    and func: "\<And>ys. length ys = length xs \<Longrightarrow>
                 \<exists>zs. func (Inr (Array ys)) = Inr (Array zs) \<and> length zs = m"
  shows "\<exists>zs. derivative func (Inr (Array xs)) dx n = Inr (Array zs) \<and> length zs = m"
proof -
  obtain z1 where z1:
    "func (Inr (Array (map (\<lambda>x. np_add x (Fin (- dx))) xs))) = Inr (Array z1)"
    "length z1 = m"
    using func [of "map (\<lambda>x. np_add x (Fin (- dx))) xs"] by auto
  obtain z2 where z2:
    "func (Inr (Array (map (\<lambda>x. np_add x (Fin 0)) xs))) = Inr (Array z2)" "length z2 = m"
    using func [of "map (\<lambda>x. np_add x (Fin 0)) xs"] by auto
  obtain z3 where z3:
    "func (Inr (Array (map (\<lambda>x. np_add x (Fin dx)) xs))) = Inr (Array z3)" "length z3 = m"
    using func [of "map (\<lambda>x. np_add x (Fin dx)) xs"] by auto
  show ?thesis
    by (simp add: derivative_unroll [OF n] v_defs z1 z2 z3 lift2_Array_Array)
qed

subsection \<open>The four functions on equal-length arrays\<close>

lemma eval_via_fl:
  "focal_loss_lgb_eval_error y_pred dtrain a g =
     (case fl a g (Inr y_pred) (Inr (label dtrain)) of
        Inl e \<Rightarrow> Inl e
      | Inr l \<Rightarrow> Inr (''focal_loss'', np_mean l, False))"
  by (simp add: focal_loss_lgb_eval_error_def fl_def Let_def)

lemma sk_objective:
  "focal_loss_lgb_sk y_true y_pred a g = focal_loss_lgb y_pred \<lparr>label = y_true\<rparr> a g"
  by (simp add: focal_loss_lgb_sk_def focal_loss_lgb_def fl_sk_eq Let_def)

lemma sk_eval:
  "focal_loss_lgb_eval_error_sk y_true y_pred a g =
   focal_loss_lgb_eval_error y_pred \<lparr>label = y_true\<rparr> a g"
  by (simp add: focal_loss_lgb_eval_error_sk_def focal_loss_lgb_eval_error_def Let_def)

lemma objective_arrays:
  assumes "length ts = length xs"
  shows "focal_loss_lgb (Array xs) \<lparr>label = Array ts\<rparr> a g =
         Inr (Array (map2 (grad_elem a g) xs ts), Array (map2 (hess_elem a g) xs ts))"
proof -
  have f: "\<And>ys. length ys = length xs \<Longrightarrow>
      fl a g (Inr (Array ys)) (Inr (Array ts)) = Inr (Array (map2 (fl_elem a g) ys ts))"
    using assms by (simp add: fl_arrays)
  have g1: "derivative (\<lambda>x. fl a g x (Inr (Array ts))) (Inr (Array xs)) (1 / 10 ^ 6) 1 =
        Inr (Array (map2 (grad_elem a g) xs ts))"
    unfolding grad_elem_def by (rule derivative_arrays [OF _ assms f]) simp_all
  have g2: "derivative (\<lambda>x. fl a g x (Inr (Array ts))) (Inr (Array xs)) (1 / 10 ^ 6) 2 =
        Inr (Array (map2 (hess_elem a g) xs ts))"
    unfolding hess_elem_def by (rule derivative_arrays [OF _ assms f]) simp_all
  have lab: "label \<lparr>label = Array ts\<rparr> = Array ts" by simp
  show ?thesis
    unfolding focal_loss_lgb_def Let_def lab g1 g2 pair_result_def by simp
qed

lemma eval_arrays:
  assumes "length ts = length xs"
  shows "focal_loss_lgb_eval_error (Array xs) \<lparr>label = Array ts\<rparr> a g =
         Inr (''focal_loss'', np_mean (Array (map2 (fl_elem a g) xs ts)), False)"
  by (simp add: eval_via_fl fl_arrays [OF assms])

subsection \<open>Sums and means of finite values\<close>

lemma foldl_np_add_Fin: "foldl np_add (Fin c) (map Fin rs) = Fin (c + sum_list rs)"
  by (induction rs arbitrary: c) (simp_all add: add.assoc)

lemma np_sum_Fin: "np_sum (map Fin rs) = Fin (sum_list rs)"
  by (simp add: np_sum_def foldl_np_add_Fin)

lemma np_mean_Fin:
  "rs \<noteq> [] \<Longrightarrow> np_mean (Array (map Fin rs)) = Fin (sum_list rs / real (length rs))"
  by (simp add: np_sum_Fin)

lemma np_mean_single: "np_mean (Array [l]) = l"
  by (cases l) (simp_all add: np_sum_def signed_inf_def)

section \<open>The closed form on finite scores and binary labels\<close>

subsection \<open>The sigmoid\<close>

lemma sigmoid_pos: "0 < sigmoid x"
  by (simp add: sigmoid_def add_pos_pos)

lemma sigmoid_lt_1: "sigmoid x < 1"
proof -
  have "0 < 1 + exp (- x)" by (simp add: add_pos_pos)
  then show ?thesis unfolding sigmoid_def by (simp add: divide_simps)
qed

lemma sigmoid_strict_mono: "x < y \<Longrightarrow> sigmoid x < sigmoid y"
proof -
  assume "x < y"
  then have "1 + exp (- y) < 1 + exp (- x)" by simp
  moreover have "0 < 1 + exp (- y)" by (simp add: add_pos_pos)
  ultimately show ?thesis unfolding sigmoid_def by (simp add: frac_less2)
qed

lemma sigmoid_0: "sigmoid 0 = 1 / 2"
  by (simp add: sigmoid_def)

lemma sigmoid_near_1:
  assumes "0 < eps"
  shows "\<exists>x. 1 - eps \<le> sigmoid x"
proof -
  let ?x = "- ln eps"
  have e: "exp (- ?x) = eps" using assms by simp
  have "(1 - eps) * (1 + eps) \<le> 1" by (simp add: algebra_simps)
  then have "1 - eps \<le> 1 / (1 + eps)" using assms by (simp add: pos_le_divide_eq)
  then have "1 - eps \<le> sigmoid ?x" unfolding sigmoid_def e .
  then show ?thesis ..
qed

lemma denominator_nonzero: "1 + exp (- x) \<noteq> (0::real)"
  by (metis add_pos_pos exp_gt_zero less_numeral_extra(1) less_irrefl)

lemma p_scalar:
  "v_div (py_float 1) (v_add (py_float 1) (v_exp (v_neg (py_float x)))) = py_float (sigmoid x)"
  by (simp add: v_defs sigmoid_def denominator_nonzero)

lemma p_array:
  "v_div (py_float 1) (v_add (py_float 1) (v_exp (v_neg (Inr (Array (map Fin xs)))))) =
   Inr (Array (map (\<lambda>x. Fin (sigmoid x)) xs))"
  by (simp add: v_defs sigmoid_def comp_def denominator_nonzero)

subsection \<open>The loss, the gradient and the Hessian of one example\<close>

lemma fl_elem_Fin:
  assumes "t = 0 \<or> t = 1"
  shows "fl_elem a g (Fin x) (Fin t) = Fin (loss a g x t)"
proof -
  have p: "0 < sigmoid x" "sigmoid x < 1" by (rule sigmoid_pos, rule sigmoid_lt_1)
  have s: "1 / (1 + exp (- x)) = sigmoid x" by (simp add: sigmoid_def)
  from assms show ?thesis
  proof
    assume "t = 0"
    with p show ?thesis
      by (simp add: fl_elem_def Let_def np_sub_def s loss_def class_weight_def
          modulating_factor_def cross_entropy_def denominator_nonzero)
  next
    assume "t = 1"
    with p show ?thesis
      by (simp add: fl_elem_def Let_def np_sub_def s loss_def class_weight_def
          modulating_factor_def cross_entropy_def denominator_nonzero)
  qed
qed

lemma fl_single:
  "fl a g (Inr (Array [x])) (Inr (Array [t])) = Inr (Array [fl_elem a g x t])"
  by (simp add: fl_single_pred)

lemma grad_elem_Fin:
  assumes "t = 0 \<or> t = 1"
  shows "grad_elem a g (Fin x) (Fin t) =
         Fin (central_difference_first (\<lambda>y. loss a g y t) x (1 / 10 ^ 6))"
  using assms
  by (simp add: grad_elem_def deriv_elem_def central_diff_weights_def fl_elem_Fin
      central_difference_first_def field_simps)

lemma hess_elem_Fin:
  assumes "t = 0 \<or> t = 1"
  shows "hess_elem a g (Fin x) (Fin t) =
         Fin (central_difference_second (\<lambda>y. loss a g y t) x (1 / 10 ^ 6))"
  using assms
  by (simp add: hess_elem_def deriv_elem_def central_diff_weights_def fl_elem_Fin
      central_difference_second_def field_simps)

subsection \<open>Vectors of finite scores and binary labels\<close>

lemma binary_nth:
  "set ts \<subseteq> {0, 1 :: real} \<Longrightarrow> i < length ts \<Longrightarrow> ts ! i = 0 \<or> ts ! i = 1"
  using nth_mem by blast

lemma map2_Fin:
  assumes "length ts = length xs"
    and "\<And>i. i < length xs \<Longrightarrow> f (Fin (xs ! i)) (Fin (ts ! i)) = Fin (h (xs ! i) (ts ! i))"
  shows "map2 f (map Fin xs) (map Fin ts) = map Fin (map2 h xs ts)"
  using assms by (intro nth_equalityI) simp_all

lemma map2_fl_elem_Fin:
  assumes "length ts = length xs" "set ts \<subseteq> {0, 1}"
  shows "map2 (fl_elem a g) (map Fin xs) (map Fin ts) = map Fin (map2 (loss a g) xs ts)"
  using assms by (intro map2_Fin fl_elem_Fin binary_nth) simp_all

lemma eval_closed_form:
  assumes "xs \<noteq> []" "length ts = length xs" "set ts \<subseteq> {0, 1}"
  shows "focal_loss_lgb_eval_error (Array (map Fin xs)) \<lparr>label = Array (map Fin ts)\<rparr> a g =
         Inr (''focal_loss'', Fin (sum_list (map2 (loss a g) xs ts) / real (length xs)), False)"
proof -
  have ne: "map2 (loss a g) xs ts \<noteq> []"
    using assms by (cases xs; cases ts) simp_all
  have len: "length (map2 (loss a g) xs ts) = length xs" using assms by simp
  show ?thesis
    using assms np_mean_Fin [OF ne]
    by (simp add: eval_arrays map2_fl_elem_Fin len del: np_mean.simps)
qed

lemma objective_closed_form:
  assumes "length ts = length xs" "set ts \<subseteq> {0, 1}"
  shows "focal_loss_lgb (Array (map Fin xs)) \<lparr>label = Array (map Fin ts)\<rparr> a g =
     Inr (Array (map Fin (map2
            (\<lambda>x t. central_difference_first (\<lambda>y. loss a g y t) x (1 / 10 ^ 6)) xs ts)),
          Array (map Fin (map2
            (\<lambda>x t. central_difference_second (\<lambda>y. loss a g y t) x (1 / 10 ^ 6)) xs ts)))"
proof -
  let ?G = "\<lambda>x t. central_difference_first (\<lambda>y. loss a g y t) x (1 / 10 ^ 6)"
  let ?H = "\<lambda>x t. central_difference_second (\<lambda>y. loss a g y t) x (1 / 10 ^ 6)"
  have g: "map2 (grad_elem a g) (map Fin xs) (map Fin ts) = map Fin (map2 ?G xs ts)"
    using assms by (intro map2_Fin grad_elem_Fin binary_nth) simp_all
  have h: "map2 (hess_elem a g) (map Fin xs) (map Fin ts) = map Fin (map2 ?H xs ts)"
    using assms by (intro map2_Fin hess_elem_Fin binary_nth) simp_all
  show ?thesis using assms by (simp add: objective_arrays g h)
qed

subsection \<open>Sign and monotonicity of the closed form\<close>

lemma loss_label_1:
  "loss alpha gamma x 1 = alpha * ((1 - sigmoid x) powr gamma * (- ln (sigmoid x)))"
  by (simp add: loss_def class_weight_def modulating_factor_def cross_entropy_def)

lemma loss_label_0:
  "loss alpha gamma x 0 = (1 - alpha) * (sigmoid x powr gamma * (- ln (1 - sigmoid x)))"
  by (simp add: loss_def class_weight_def modulating_factor_def cross_entropy_def
      algebra_simps)

lemma loss_nonneg_real:
  assumes "t = 0 \<or> t = 1" "0 \<le> alpha" "alpha \<le> 1"
  shows "0 \<le> loss alpha gamma x t"
proof -
  have p: "0 < sigmoid x" "sigmoid x < 1" by (rule sigmoid_pos, rule sigmoid_lt_1)
  have cw: "0 \<le> class_weight alpha t" using assms by (auto simp add: class_weight_def)
  have mf: "0 \<le> modulating_factor gamma (sigmoid x) t" by (simp add: modulating_factor_def)
  have ce: "cross_entropy (sigmoid x) t \<le> 0"
    using assms(1) p by (auto simp add: cross_entropy_def)
  have "0 \<le> (class_weight alpha t * modulating_factor gamma (sigmoid x) t)
             * (- cross_entropy (sigmoid x) t)"
    using cw mf ce by (intro mult_nonneg_nonneg) simp_all
  then show ?thesis by (simp add: loss_def)
qed

lemma loss_gamma_0:
  assumes "t = 0 \<or> t = 1"
  shows "loss alpha 0 x t = weighted_cross_entropy alpha x t"
proof -
  have p: "0 < sigmoid x" "sigmoid x < 1" by (rule sigmoid_pos, rule sigmoid_lt_1)
  with assms show ?thesis
    by (auto simp add: loss_def weighted_cross_entropy_def class_weight_def
        modulating_factor_def cross_entropy_def)
qed

lemma loss_decreasing_label_1:
  assumes "x < y" "0 < alpha" "0 \<le> gamma"
  shows "loss alpha gamma y 1 < loss alpha gamma x 1"
proof -
  let ?p = "sigmoid x" and ?q = "sigmoid y"
  have pq: "?p < ?q" using assms(1) by (rule sigmoid_strict_mono)
  have b: "0 < ?p" "?q < 1" "?p < 1" "0 < ?q"
    by (rule sigmoid_pos, rule sigmoid_lt_1, rule sigmoid_lt_1, rule sigmoid_pos)
  have A: "(1 - ?q) powr gamma \<le> (1 - ?p) powr gamma"
    using pq b assms(3) by (intro powr_mono2) simp_all
  have B: "- ln ?q < - ln ?p" using pq b by simp
  have Bq: "0 < - ln ?q" using pq b by simp
  have "(1 - ?q) powr gamma * (- ln ?q) \<le> (1 - ?p) powr gamma * (- ln ?q)"
    using A Bq by (intro mult_right_mono) simp_all
  also have "\<dots> < (1 - ?p) powr gamma * (- ln ?p)"
    using B b by (intro mult_strict_left_mono) simp_all
  finally show ?thesis using assms(2) by (simp add: loss_label_1)
qed

lemma loss_increasing_label_0:
  assumes "x < y" "alpha < 1" "0 \<le> gamma"
  shows "loss alpha gamma x 0 < loss alpha gamma y 0"
proof -
  let ?p = "sigmoid x" and ?q = "sigmoid y"
  have pq: "?p < ?q" using assms(1) by (rule sigmoid_strict_mono)
  have b: "0 < ?p" "?q < 1" "?p < 1" "0 < ?q"
    by (rule sigmoid_pos, rule sigmoid_lt_1, rule sigmoid_lt_1, rule sigmoid_pos)
  have A: "?p powr gamma \<le> ?q powr gamma"
    using pq b assms(3) by (intro powr_mono2) simp_all
  have B: "- ln (1 - ?p) < - ln (1 - ?q)" using pq b by simp
  have Bp: "0 < - ln (1 - ?p)" using pq b by simp
  have "?p powr gamma * (- ln (1 - ?p)) \<le> ?q powr gamma * (- ln (1 - ?p))"
    using A Bp by (intro mult_right_mono) simp_all
  also have "\<dots> < ?q powr gamma * (- ln (1 - ?q))"
    using B b by (intro mult_strict_left_mono) simp_all
  finally show ?thesis using assms(2) by (simp add: loss_label_0)
qed

lemma loss_at_0_label_1: "loss (1 / 4) 2 0 1 = ln 2 / 16"
  by (simp add: loss_label_1 sigmoid_0 ln_div power2_eq_square)

lemma loss_at_0_label_0: "loss (1 / 4) 2 0 0 = 3 * ln 2 / 16"
  by (simp add: loss_label_0 sigmoid_0 ln_div power2_eq_square)

lemma central_first_neg:
  "0 < h \<Longrightarrow> f (x + h) < f (x - h) \<Longrightarrow> central_difference_first f x h < 0"
  by (simp add: central_difference_first_def divide_neg_pos)

lemma central_first_pos:
  "0 < h \<Longrightarrow> f (x - h) < f (x + h) \<Longrightarrow> 0 < central_difference_first f x h"
  by (simp add: central_difference_first_def)

section \<open>Lengths that do not match\<close>

lemma length_1_conv: "length xs = 1 \<Longrightarrow> \<exists>x. xs = [x]"
  by (cases xs) simp_all

lemma fl_shape_single_pred:
  assumes "length ys = 1"
  shows "\<exists>zs. fl a g (Inr (Array ys)) (Inr (Array ts)) = Inr (Array zs)
           \<and> length zs = length ts"
proof -
  from assms obtain y where "ys = [y]" using length_1_conv by blast
  then show ?thesis by (simp add: fl_single_pred)
qed

lemma fl_shape_single_label:
  assumes "length ts = 1"
  shows "\<exists>zs. fl a g (Inr (Array ys)) (Inr (Array ts)) = Inr (Array zs)
           \<and> length zs = length ys"
proof -
  from assms obtain t where "ts = [t]" using length_1_conv by blast
  then show ?thesis by (simp add: fl_single_label)
qed

lemma fl_shape_equal:
  assumes "length ts = length ys"
  shows "\<exists>zs. fl a g (Inr (Array ys)) (Inr (Array ts)) = Inr (Array zs)
           \<and> length zs = length ys"
  using assms by (simp add: fl_arrays)

lemma fl_shape:
  assumes "broadcastable (length ys) (length ts)"
  shows "\<exists>zs. fl a g (Inr (Array ys)) (Inr (Array ts)) = Inr (Array zs) \<and>
           length zs = (if length ys = 1 then length ts else length ys)"
proof (cases "length ys = 1")
  case True
  then show ?thesis using fl_shape_single_pred [of ys a g ts] by simp
next
  case False
  show ?thesis
  proof (cases "length ts = length ys")
    case True
    then show ?thesis using False fl_shape_equal [of ts ys a g] by simp
  next
    case neq: False
    with False assms have "length ts = 1" by (auto simp add: broadcastable_def)
    then show ?thesis using False fl_shape_single_label [of ts a g ys] by simp
  qed
qed

lemma objective_ok:
  assumes "broadcastable (length xs) (length ts)"
  shows "\<exists>gs hs. focal_loss_lgb (Array xs) \<lparr>label = Array ts\<rparr> a g = Inr (Array gs, Array hs)
           \<and> length gs = (if length xs = 1 then length ts else length xs)
           \<and> length hs = (if length xs = 1 then length ts else length xs)"
proof -
  let ?m = "if length xs = 1 then length ts else length xs"
  have f: "\<And>ys. length ys = length xs \<Longrightarrow>
      \<exists>zs. fl a g (Inr (Array ys)) (Inr (Array ts)) = Inr (Array zs) \<and> length zs = ?m"
    using assms fl_shape by metis
  obtain gs where gs:
    "derivative (\<lambda>x. fl a g x (Inr (Array ts))) (Inr (Array xs)) (1 / 10 ^ 6) 1 =
       Inr (Array gs)"
    "length gs = ?m"
    using derivative_shape [of 1 xs "\<lambda>x. fl a g x (Inr (Array ts))" ?m "1 / 10 ^ 6"] f
    by auto
  obtain hs where hs:
    "derivative (\<lambda>x. fl a g x (Inr (Array ts))) (Inr (Array xs)) (1 / 10 ^ 6) 2 =
       Inr (Array hs)"
    "length hs = ?m"
    using derivative_shape [of 2 xs "\<lambda>x. fl a g x (Inr (Array ts))" ?m "1 / 10 ^ 6"] f
    by auto
  have lab: "label \<lparr>label = Array ts\<rparr> = Array ts" by simp
  have "focal_loss_lgb (Array xs) \<lparr>label = Array ts\<rparr> a g = Inr (Array gs, Array hs)"
    unfolding focal_loss_lgb_def Let_def lab gs hs pair_result_def by simp
  with gs hs show ?thesis by blast
qed

lemma objective_raises:
  assumes "\<not> broadcastable (length xs) (length ts)"
  shows "focal_loss_lgb (Array xs) \<lparr>label = Array ts\<rparr> a g = Inl ValueError"
proof -
  have f: "\<And>ys. length ys = length xs \<Longrightarrow>
      fl a g (Inr (Array ys)) (Inr (Array ts)) = Inl ValueError"
    using assms by (simp add: broadcastable_def fl_mismatch)
  have g1: "derivative (\<lambda>x. fl a g x (Inr (Array ts))) (Inr (Array xs)) (1 / 10 ^ 6) 1 =
      Inl ValueError"
    using f by (intro derivative_Inl [where xs = xs]) simp_all
  have lab: "label \<lparr>label = Array ts\<rparr> = Array ts" by simp
  show ?thesis
    unfolding focal_loss_lgb_def Let_def lab g1 pair_result_def by simp
qed

lemma eval_ok:
  assumes "broadcastable (length xs) (length ts)"
  shows "\<exists>v. focal_loss_lgb_eval_error (Array xs) \<lparr>label = Array ts\<rparr> a g =
           Inr (''focal_loss'', v, False)"
proof -
  obtain zs where "fl a g (Inr (Array xs)) (Inr (Array ts)) = Inr (Array zs)"
    using fl_shape [OF assms] by blast
  then show ?thesis by (simp add: eval_via_fl)
qed

lemma eval_raises:
  assumes "\<not> broadcastable (length xs) (length ts)"
  shows "focal_loss_lgb_eval_error (Array xs) \<lparr>label = Array ts\<rparr> a g = Inl ValueError"
  using assms by (simp add: eval_via_fl broadcastable_def fl_mismatch)

section \<open>Rounded arithmetic on arrays\<close>

text \<open>On arrays of the same length the rounded \<^verbatim>\<open>fl\<close> computes the closed form of the
  specification, in rounded arithmetic, on every pair of a score and a label; with
  \<open>rnd = Fin\<close> it is the exact \<^verbatim>\<open>fl\<close>.\<close>

lemmas r_defs = r_add_def r_sub_def r_mul_def r_div_def r_exp_def r_log_def r_pow_def v_neg_def

lemma fl_rounded_arrays:
  assumes "length ts = length xs"
  shows "fl_rounded rnd a g (Inr (Array xs)) (Inr (Array ts)) =
         Inr (Array (map2 (loss_rounded rnd a g) xs ts))"
  using assms
  apply (simp add: fl_rounded_def r_defs Let_def lift2_Array_Array)
  apply (rule nth_equalityI)
   apply simp
  apply (simp add: loss_rounded_def sigmoid_rounded_def modulating_factor_rounded_def
      class_weight_rounded_def cross_entropy_rounded_def e_mul_def rounded_def)
  done

lemma fl_rounded_single:
  "fl_rounded rnd a g (Inr (Array [x])) (Inr (Array [t])) = Inr (Array [loss_rounded rnd a g x t])"
  by (simp add: fl_rounded_arrays)

lemma eval_rounded_via_fl:
  "focal_loss_lgb_eval_error_rounded rnd y_pred dtrain a g =
     (case fl_rounded rnd a g (Inr y_pred) (Inr (label dtrain)) of
        Inl e \<Rightarrow> Inl e
      | Inr l \<Rightarrow> Inr (''focal_loss'', np_mean_rounded rnd l, False))"
  by (simp add: focal_loss_lgb_eval_error_rounded_def fl_rounded_def Let_def)



lemma rounded_Fin [simp]: "rounded Fin v = v"
  by (cases v) (simp_all add: rounded_def)

lemma loss_rounded_exact: "loss_rounded Fin a g x t = fl_elem a g x t"
  by (simp add: loss_rounded_def sigmoid_rounded_def modulating_factor_rounded_def
      class_weight_rounded_def cross_entropy_rounded_def fl_elem_def Let_def
      e_add_def e_sub_def e_mul_def e_div_def e_exp_def e_log_def e_power_def)

lemma fl_rounded_exact: "fl_rounded Fin a g x t = fl a g x t"
proof -
  have "e_add Fin = np_add" "e_sub Fin = np_sub" "e_mul Fin = np_mul" "e_div Fin = np_div"
    "e_exp Fin = np_exp" "e_log Fin = np_log" "\<And>g. (\<lambda>x. e_power Fin x g) = (\<lambda>x. np_power x g)"
    by (simp_all add: fun_eq_iff e_add_def e_sub_def e_mul_def e_div_def e_exp_def e_log_def
        e_power_def)
  then show ?thesis
    by (simp add: fl_rounded_def fl_def r_add_def r_sub_def r_mul_def r_div_def r_exp_def
        r_log_def r_pow_def v_defs)
qed

lemma loss_rounded_closed_form:
  assumes "t = 0 \<or> t = 1"
  shows "loss_rounded Fin alpha gamma (Fin x) (Fin t) = Fin (loss alpha gamma x t)"
  unfolding loss_rounded_exact using assms by (rule fl_elem_Fin)

section \<open>Rounding to binary64\<close>

subsection \<open>Rounding a real to an integer, ties to even\<close>

lemma round_half_even_of_int [simp]: "round_half_even (of_int n) = n"
  by (simp add: round_half_even_def)

lemma round_half_even_le:
  assumes "y \<le> of_int N"
  shows "round_half_even y \<le> N"
proof (cases "y = of_int N")
  case True
  then show ?thesis by simp
next
  case False
  with assms have "y < of_int N" by simp
  then have "\<lfloor>y\<rfloor> < N" by (simp add: floor_less_iff)
  then show ?thesis by (simp add: round_half_even_def Let_def)
qed

lemma round_half_even_ge:
  assumes "of_int N \<le> y"
  shows "N \<le> round_half_even y"
proof -
  have "N \<le> \<lfloor>y\<rfloor>" using assms by (simp add: le_floor_iff)
  then show ?thesis by (simp add: round_half_even_def Let_def)
qed

lemma round_half_even_uminus: "round_half_even (- y) = - round_half_even y"
proof (cases "y = of_int \<lfloor>y\<rfloor>")
  case True
  then obtain n where "y = of_int n" ..
  then have "- y = of_int (- n)" by simp
  with \<open>y = of_int n\<close> show ?thesis by (simp only: round_half_even_of_int)
next
  case False
  then have "\<lceil>y\<rceil> = \<lfloor>y\<rfloor> + 1" by (simp add: ceiling_altdef)
  then have f: "\<lfloor>- y\<rfloor> = - \<lfloor>y\<rfloor> - 1" by (simp add: ceiling_def)
  show ?thesis
    unfolding round_half_even_def Let_def f
    by (auto simp add: algebra_simps)
qed

lemma round_half_even_near:
  assumes "\<bar>y - of_int N\<bar> < 1 / 2"
  shows "round_half_even y = N"
proof (cases "of_int N \<le> y")
  case True
  with assms have "\<lfloor>y\<rfloor> = N" by (intro floor_unique) linarith+
  with assms True show ?thesis by (simp add: round_half_even_def Let_def)
next
  case False
  have b: "of_int N - 1 / 2 < y" "y < of_int N" using assms False by linarith+
  have "of_int (N - 1) \<le> y" "y < of_int (N - 1) + 1" using b by simp_all
  then have f: "\<lfloor>y\<rfloor> = N - 1" by (rule floor_unique)
  have "1 / 2 < y - of_int (N - 1)" using b by simp
  with f show ?thesis by (simp add: round_half_even_def Let_def)
qed

subsection \<open>Exponent and spacing\<close>

lemma spacing_pos: "0 < spacing x"
  by (simp add: spacing_def)

lemma two_powr_of_int: "0 \<le> k \<Longrightarrow> (2::real) powr of_int k = of_int (2 ^ nat k)"
proof -
  assume k: "0 \<le> k"
  have "(2::real) powr of_int k = 2 powr real (nat k)"
    using k by (simp only: of_nat_nat)
  also have "\<dots> = 2 ^ nat k" by (rule powr_realpow) simp
  finally show ?thesis by simp
qed

lemma abs_less_two_powr_exponent:
  assumes "x \<noteq> 0"
  shows "\<bar>x\<bar> < 2 powr (of_int (exponent x) + 1)"
proof -
  have "log 2 \<bar>x\<bar> < of_int \<lfloor>log 2 \<bar>x\<bar>\<rfloor> + 1" by linarith
  also have "\<dots> \<le> of_int (exponent x) + 1" by (simp add: exponent_def)
  finally have "log 2 \<bar>x\<bar> < of_int (exponent x) + 1" .
  then show ?thesis using assms by (simp add: log_less_iff)
qed

lemma two_powr_53: "(2::real) powr 53 = of_int (2 ^ 53)"
proof -
  have "(2::real) powr of_int 53 = of_int (2 ^ nat 53)" by (rule two_powr_of_int) simp
  then show ?thesis by simp
qed

lemma quotient_bound:
  assumes "x \<noteq> 0"
  shows "\<bar>x / spacing x\<bar> < of_int (2 ^ 53)"
proof -
  have "\<bar>x\<bar> < 2 powr (of_int (exponent x) + 1)" using assms by (rule abs_less_two_powr_exponent)
  also have "\<dots> = 2 powr (53 + (of_int (exponent x) - 52))" by (simp add: add.commute)
  also have "\<dots> = 2 powr 53 * spacing x"
    unfolding spacing_def by (rule powr_add)
  finally have "\<bar>x\<bar> / spacing x < 2 powr 53" using spacing_pos [of x]
    by (simp only: pos_divide_less_eq)
  then have "\<bar>x / spacing x\<bar> < 2 powr 53" using spacing_pos [of x]
    by (simp only: abs_divide abs_of_pos)
  then show ?thesis by (simp only: two_powr_53)
qed

lemma mantissa_bound:
  assumes "x \<noteq> 0"
  shows "round_half_even (x / spacing x) \<le> 2 ^ 53" "- (2 ^ 53) \<le> round_half_even (x / spacing x)"
proof -
  have b: "\<bar>x / spacing x\<bar> < of_int (2 ^ 53)" using assms by (rule quotient_bound)
  then have "x / spacing x \<le> of_int (2 ^ 53)" by linarith
  then show "round_half_even (x / spacing x) \<le> 2 ^ 53" by (rule round_half_even_le)
  from b have "of_int (- (2 ^ 53)) \<le> x / spacing x" unfolding of_int_minus by linarith
  then show "- (2 ^ 53) \<le> round_half_even (x / spacing x)" by (rule round_half_even_ge)
qed

lemma binary64_cases:
  assumes "x \<noteq> 0"
  obtains (finite) "binary64 x = Fin (of_int (round_half_even (x / spacing x)) * spacing x)"
      "\<bar>of_int (round_half_even (x / spacing x)) * spacing x\<bar> < 2 powr 1024"
    | (overflow) "binary64 x = signed_inf (0 < x)"
      "2 powr 1024 \<le> \<bar>of_int (round_half_even (x / spacing x)) * spacing x\<bar>"
proof (cases "2 powr 1024 \<le> \<bar>of_int (round_half_even (x / spacing x)) * spacing x\<bar>")
  case True
  then have "binary64 x = signed_inf (0 < x)"
    using assms unfolding binary64_def Let_def by (simp only: if_True if_False)
  then show ?thesis using True by (rule overflow)
next
  case False
  then have "binary64 x = Fin (of_int (round_half_even (x / spacing x)) * spacing x)"
    using assms unfolding binary64_def Let_def by (simp only: if_True if_False)
  moreover from False
  have "\<bar>of_int (round_half_even (x / spacing x)) * spacing x\<bar> < 2 powr 1024"
    by (simp only: not_le)
  ultimately show ?thesis by (rule finite)
qed

lemma binary64_0 [simp]: "binary64 0 = Fin 0"
  by (simp add: binary64_def)

lemma grid_le:
  assumes "x \<le> of_int N * spacing x"
  shows "of_int (round_half_even (x / spacing x)) * spacing x \<le> of_int N * spacing x"
proof -
  have "x / spacing x \<le> of_int N" using assms spacing_pos [of x]
    by (simp add: pos_divide_le_eq)
  then have "round_half_even (x / spacing x) \<le> N" by (rule round_half_even_le)
  then have "(of_int (round_half_even (x / spacing x)) :: real) \<le> of_int N" by simp
  then show ?thesis using spacing_pos [of x] by (simp add: mult_right_mono)
qed

lemma grid_ge:
  assumes "of_int N * spacing x \<le> x"
  shows "of_int N * spacing x \<le> of_int (round_half_even (x / spacing x)) * spacing x"
proof -
  have "of_int N \<le> x / spacing x" using assms spacing_pos [of x]
    by (simp add: pos_le_divide_eq)
  then have "N \<le> round_half_even (x / spacing x)" by (rule round_half_even_ge)
  then have "(of_int N :: real) \<le> of_int (round_half_even (x / spacing x))" by simp
  then show ?thesis using spacing_pos [of x] by (simp add: mult_right_mono)
qed

lemma binary64_nonneg: 
  assumes "0 \<le> y" shows "nonneg (binary64 y)"
proof (cases "y = 0")
  case True
  then show ?thesis by simp
next
  case False
  with assms have pos: "0 < y" by simp
  have "of_int 0 * spacing y \<le> of_int (round_half_even (y / spacing y)) * spacing y"
    using pos by (intro grid_ge) simp
  then have r: "0 \<le> of_int (round_half_even (y / spacing y)) * spacing y" by simp
  from False show ?thesis
  proof (cases y rule: binary64_cases)
    case finite
    with r show ?thesis by (simp only: nonneg.simps)
  next
    case overflow
    with pos show ?thesis by (simp only: signed_inf_def if_True nonneg.simps)
  qed
qed

lemma binary64_nonpos:
  assumes "y \<le> 0" shows "nonpos (binary64 y)"
proof (cases "y = 0")
  case True
  then show ?thesis by simp
next
  case False
  with assms have neg: "y < 0" by simp
  have "of_int (round_half_even (y / spacing y)) * spacing y \<le> of_int 0 * spacing y"
    using neg by (intro grid_le) simp
  then have r: "of_int (round_half_even (y / spacing y)) * spacing y \<le> 0" by simp
  from neg have n: "\<not> 0 < y" by simp
  from False show ?thesis
  proof (cases y rule: binary64_cases)
    case finite
    with r show ?thesis by (simp only: nonpos.simps)
  next
    case overflow
    with n show ?thesis by (simp only: signed_inf_def if_False nonpos.simps)
  qed
qed

lemma binary64_value:
  assumes "x \<noteq> 0" "of_int (round_half_even (x / spacing x)) * spacing x = r"
    "\<bar>r\<bar> < 2 powr 1024"
  shows "binary64 x = Fin r"
  using assms(1)
proof (cases x rule: binary64_cases)
  case finite
  with assms(2) show ?thesis by simp
next
  case overflow
  with assms(2,3) show ?thesis by simp
qed

lemma exponent_eq:
  assumes "2 powr of_int k \<le> \<bar>y\<bar>" "\<bar>y\<bar> < 2 powr (of_int k + 1)" "- 1022 \<le> k"
  shows "exponent y = k"
proof -
  have pos: "0 < \<bar>y\<bar>" using assms(1) by (rule less_le_trans [rotated]) simp
  have "of_int k \<le> log 2 \<bar>y\<bar>" using assms(1) pos by (simp add: le_log_iff)
  moreover have "log 2 \<bar>y\<bar> < of_int k + 1" using assms(2) pos by (simp add: log_less_iff)
  ultimately have "\<lfloor>log 2 \<bar>y\<bar>\<rfloor> = k" by (intro floor_unique) simp_all
  with assms(3) show ?thesis by (simp add: exponent_def)
qed

lemma spacing_eq:
  assumes "2 powr of_int k \<le> \<bar>y\<bar>" "\<bar>y\<bar> < 2 powr (of_int k + 1)" "- 1022 \<le> k"
  shows "spacing y = 2 powr (of_int k - 52)"
  unfolding spacing_def exponent_eq [OF assms] ..

subsection \<open>Binary64 keeps the order with 0 and with 1\<close>

lemma one_less_huge: "(1::real) < 2 powr 1024"
proof -
  have "(2::real) powr 0 < 2 powr 1024" by (rule powr_less_mono) simp_all
  then show ?thesis by simp
qed

lemma exponent_normal:
  assumes "1 \<le> y"
  shows "0 \<le> exponent y" "2 powr of_int (exponent y) \<le> y"
proof -
  have l: "0 \<le> log 2 y" using assms by simp
  then have f: "0 \<le> \<lfloor>log 2 \<bar>y\<bar>\<rfloor>" using assms by simp
  then have e: "exponent y = \<lfloor>log 2 \<bar>y\<bar>\<rfloor>" by (simp add: exponent_def)
  from f e show "0 \<le> exponent y" by simp
  have "of_int (exponent y) \<le> log 2 y" using e assms by simp
  then show "2 powr of_int (exponent y) \<le> y" using assms by (simp add: le_log_iff)
qed

lemma binary64_at_least_one:
  assumes "1 \<le> y" shows "at_least_one (binary64 y)"
proof -
  have y: "y \<noteq> 0" "0 < y" using assms by simp_all
  have "2 powr of_int (exponent y) = 2 powr (52 + (of_int (exponent y) - 52))" by simp
  also have "\<dots> = 2 powr 52 * spacing y" unfolding spacing_def by (rule powr_add)
  also have "(2::real) powr 52 = of_int (2 ^ 52)"
    using two_powr_of_int [of 52] by simp
  finally have g: "2 powr of_int (exponent y) = of_int (2 ^ 52) * spacing y" .
  have "of_int (2 ^ 52) * spacing y \<le> y" using exponent_normal(2) [OF assms] g by simp
  then have "of_int (2 ^ 52) * spacing y \<le> of_int (round_half_even (y / spacing y)) * spacing y"
    by (rule grid_ge)
  then have "2 powr of_int (exponent y) \<le> of_int (round_half_even (y / spacing y)) * spacing y"
    using g by simp
  moreover have "(1::real) \<le> 2 powr of_int (exponent y)"
    using exponent_normal(1) [OF assms] by (simp add: ge_one_powr_ge_zero)
  ultimately have r: "1 \<le> of_int (round_half_even (y / spacing y)) * spacing y" by linarith
  from y(1) show ?thesis
  proof (cases y rule: binary64_cases)
    case finite
    with r show ?thesis by (simp only: at_least_one.simps)
  next
    case overflow
    with y(2) show ?thesis by (simp only: signed_inf_def if_True at_least_one.simps)
  qed
qed

lemma binary64_at_most_one:
  assumes "y \<le> 1" shows "at_most_one (binary64 y)"
proof (cases "0 < y")
  case False
  then have "y \<le> 0" by simp
  then have "nonpos (binary64 y)" by (rule binary64_nonpos)
  then show ?thesis by (cases "binary64 y") simp_all
next
  case True
  then have y: "y \<noteq> 0" by simp
  have "log 2 y \<le> 0" using True assms by (simp add: log_le_zero_cancel_iff)
  then have "\<lfloor>log 2 \<bar>y\<bar>\<rfloor> \<le> 0" using True by (simp add: floor_le_iff) 
  then have e: "exponent y \<le> 0" by (simp add: exponent_def)
  define N :: int where "N = 2 ^ nat (52 - exponent y)"
  have "of_int N = (2::real) powr of_int (52 - exponent y)"
    unfolding N_def using e by (subst two_powr_of_int) simp_all
  then have "of_int N * spacing y = 2 powr (of_int (52 - exponent y) + (of_int (exponent y) - 52))"
    unfolding spacing_def by (simp only: powr_add)
  also have "\<dots> = 1" by simp
  finally have g: "of_int N * spacing y = 1" .
  have "y \<le> of_int N * spacing y" using assms g by simp
  then have "of_int (round_half_even (y / spacing y)) * spacing y \<le> of_int N * spacing y"
    by (rule grid_le)
  then have r: "of_int (round_half_even (y / spacing y)) * spacing y \<le> 1" using g by simp
  have "nonneg (binary64 y)" using True by (intro binary64_nonneg) simp
  from y show ?thesis
  proof (cases y rule: binary64_cases)
    case finite
    with r show ?thesis by (simp only: at_most_one.simps)
  next
    case overflow
    have "of_int 0 * spacing y \<le> of_int (round_half_even (y / spacing y)) * spacing y"
      using True by (intro grid_ge) simp
    then have "\<bar>of_int (round_half_even (y / spacing y)) * spacing y\<bar> \<le> 1" using r by simp
    with overflow(2) one_less_huge have False by linarith
    then show ?thesis ..
  qed
qed

lemma keeps_order_binary64: "keeps_order binary64"
  unfolding keeps_order_def
  using binary64_nonneg binary64_nonpos binary64_at_least_one binary64_at_most_one by blast

lemma binary64_1: "binary64 1 = Fin 1"
proof -
  have "at_least_one (binary64 1)" "at_most_one (binary64 1)"
    by (rule binary64_at_least_one, simp, rule binary64_at_most_one, simp)
  then show ?thesis by (cases "binary64 1") simp_all
qed

subsection \<open>Binary64 leaves a float and its negation alone\<close>

lemma exponent_uminus [simp]: "exponent (- x) = exponent x"
  by (simp add: exponent_def)

lemma spacing_uminus [simp]: "spacing (- x) = spacing x"
  by (simp add: spacing_def)

lemma binary64_uminus: "binary64 (- x) = np_neg (binary64 x)"
proof (cases "x = 0")
  case True
  then show ?thesis by simp
next
  case False
  have m: "of_int (round_half_even (- x / spacing x)) * spacing x =
        - (of_int (round_half_even (x / spacing x)) * spacing x)"
    using round_half_even_uminus [of "x / spacing x"] by simp
  show ?thesis
  proof (cases "2 powr 1024 \<le> \<bar>of_int (round_half_even (x / spacing x)) * spacing x\<bar>")
    case True
    then have "binary64 x = signed_inf (0 < x)" "binary64 (- x) = signed_inf (0 < - x)"
      using False unfolding binary64_def Let_def spacing_uminus m abs_minus_cancel
      by (simp_all only: if_True if_False neg_equal_0_iff_equal)
    then show ?thesis using False by (cases "0 < x") (simp_all add: signed_inf_def)
  next
    case no: False
    then have "binary64 x = Fin (of_int (round_half_even (x / spacing x)) * spacing x)"
      "binary64 (- x) = Fin (- (of_int (round_half_even (x / spacing x)) * spacing x))"
      using False unfolding binary64_def Let_def spacing_uminus m abs_minus_cancel
      by (simp_all only: if_True if_False neg_equal_0_iff_equal)
    then show ?thesis by simp
  qed
qed

lemma binary64_of_grid:
  assumes "r / spacing r = of_int n" "\<bar>r\<bar> < 2 powr 1024"
  shows "binary64 r = Fin r"
proof (cases "r = 0")
  case True
  then show ?thesis by simp
next
  case False
  have "of_int (round_half_even (r / spacing r)) * spacing r = of_int n * spacing r"
    using assms(1) by simp
  also have "\<dots> = r" using assms(1) spacing_pos [of r] by (simp add: field_simps)
  finally have m: "of_int (round_half_even (r / spacing r)) * spacing r = r" .
  from assms(2) have "\<not> 2 powr 1024 \<le> \<bar>r\<bar>" by simp
  then show ?thesis
    using False unfolding binary64_def Let_def m by (simp only: if_False)
qed

lemma exponent_ge: "- 1022 \<le> exponent x"
  by (simp add: exponent_def)

lemma two_powr_exponent_le:
  assumes "r \<noteq> 0" "exponent r \<noteq> - 1022"
  shows "2 powr of_int (exponent r) \<le> \<bar>r\<bar>"
proof -
  have "exponent r = \<lfloor>log 2 \<bar>r\<bar>\<rfloor>" using assms(2) by (simp add: exponent_def max_def split: if_splits)
  then have "of_int (exponent r) \<le> log 2 \<bar>r\<bar>" by simp
  then show ?thesis using assms(1) by (simp add: le_log_iff)
qed

lemma binary64_idem:
  assumes "binary64 x = Fin r"
  shows "binary64 r = Fin r"
proof (cases "r = 0")
  case True
  then show ?thesis by simp
next
  case False
  then have x: "x \<noteq> 0" using assms by auto
  define m where "m = round_half_even (x / spacing x)"
  from x assms have r: "r = of_int m * spacing x" and fin: "\<bar>r\<bar> < 2 powr 1024"
    unfolding m_def by (cases x rule: binary64_cases; simp add: signed_inf_def split: if_splits)+
  have mb: "\<bar>m\<bar> \<le> 2 ^ 53" using mantissa_bound [OF x] unfolding m_def by linarith
  have up: "2 powr 53 * spacing x = 2 powr (of_int (exponent x) + 1)"
  proof -
    have "(2::real) powr (of_int (exponent x) + 1) = 2 powr (53 + (of_int (exponent x) - 52))"
      by (simp add: add.commute)
    also have "\<dots> = 2 powr 53 * spacing x" unfolding spacing_def by (rule powr_add)
    finally show ?thesis by simp
  qed
  have "\<bar>r\<bar> = of_int \<bar>m\<bar> * spacing x"
    unfolding r using spacing_pos [of x] by (simp add: abs_mult)
  also have "\<dots> \<le> of_int (2 ^ 53) * spacing x"
  proof (rule mult_right_mono)
    show "(of_int \<bar>m\<bar> :: real) \<le> of_int (2 ^ 53)" using mb by (simp only: of_int_le_iff)
    show "0 \<le> spacing x" using spacing_pos [of x] by simp
  qed
  also have "\<dots> = 2 powr (of_int (exponent x) + 1)" using up two_powr_53 by simp
  finally have rb: "\<bar>r\<bar> \<le> 2 powr (of_int (exponent x) + 1)" .
  have "\<exists>n. r / spacing r = of_int n"
  proof (cases "exponent r \<le> exponent x")
    case True
    have "r / spacing r = of_int m * (2 powr (of_int (exponent x) - 52) / 2 powr (of_int (exponent r) - 52))"
      unfolding r spacing_def by simp
    also have "(2::real) powr (of_int (exponent x) - 52) / 2 powr (of_int (exponent r) - 52) =
        2 powr of_int (exponent x - exponent r)"
      by (simp add: powr_diff [symmetric])
    also have "\<dots> = of_int (2 ^ nat (exponent x - exponent r))"
      using True by (intro two_powr_of_int) simp
    finally have "r / spacing r = of_int (m * 2 ^ nat (exponent x - exponent r))" by simp
    then show ?thesis ..
  next
    case gt: False
    then have ne: "exponent r \<noteq> - 1022" using exponent_ge [of x] by linarith
    have lo: "2 powr of_int (exponent r) \<le> \<bar>r\<bar>" using False ne by (rule two_powr_exponent_le)
    with rb have "(2::real) powr of_int (exponent r) \<le> 2 powr (of_int (exponent x) + 1)"
      by linarith
    then have "of_int (exponent r) \<le> (of_int (exponent x) + 1 :: real)" by simp
    then have "exponent r \<le> exponent x + 1" by linarith
    with gt have er: "exponent r = exponent x + 1" by linarith
    with lo rb have a: "\<bar>r\<bar> = 2 powr (of_int (exponent x) + 1)" by (simp add: add.commute)
    have s: "spacing r = 2 powr (of_int (exponent x) + 1 - 52)"
      unfolding spacing_def er by simp
    have "\<bar>r\<bar> / spacing r = (2::real) powr 52"
      unfolding a s by (simp add: powr_diff [symmetric])
    also have "(2::real) powr 52 = of_int (2 ^ 52)" using two_powr_of_int [of 52] by simp
    finally have q: "\<bar>r\<bar> / spacing r = of_int (2 ^ 52)" .
    show ?thesis
    proof (cases "0 \<le> r")
      case True
      with q have "r / spacing r = of_int (2 ^ 52)" by simp
      then show ?thesis ..
    next
      case False
      with q have "r / spacing r = of_int (- (2 ^ 52))" by simp
      then show ?thesis ..
    qed
  qed
  then obtain n where "r / spacing r = of_int n" ..
  then show ?thesis using fin by (rule binary64_of_grid)
qed

lemma keeps_floats_binary64: "keeps_floats binary64"
  unfolding keeps_floats_def
proof (intro conjI allI impI)
  show "binary64 1 = Fin 1" by (rule binary64_1)
next
  fix z r assume "binary64 z = Fin r"
  then have "binary64 r = Fin r" by (rule binary64_idem)
  then show "binary64 (- r) = Fin (- r)" by (simp add: binary64_uminus)
qed

section \<open>Rounding functions that keep the order\<close>

text \<open>What follows holds for every rounding function that keeps the order of a real with
  0 and with 1, binary64 among them: the sigmoid of a finite score is a float in the unit
  interval, and so are the class weight and the modulating factor of a binary label; the
  logarithms are not positive; the cross entropy is not positive, or it is \<open>nan\<close>.\<close>

lemma keeps_order_unit:
  assumes "keeps_order rnd" "0 \<le> y" "y \<le> 1"
  obtains r where "rnd y = Fin r" "0 \<le> r" "r \<le> 1"
proof -
  have "nonneg (rnd y)" "at_most_one (rnd y)"
    using assms unfolding keeps_order_def by blast+
  then show ?thesis using that by (cases "rnd y") simp_all
qed

lemma keeps_order_0: "keeps_order rnd \<Longrightarrow> rnd 0 = Fin 0"
proof -
  assume k: "keeps_order rnd"
  have "nonneg (rnd 0)" "nonpos (rnd 0)" using k unfolding keeps_order_def by (metis order_refl)+
  then show ?thesis by (cases "rnd 0") simp_all
qed

lemma keeps_order_1: "keeps_order rnd \<Longrightarrow> rnd 1 = Fin 1"
proof -
  assume k: "keeps_order rnd"
  have "at_least_one (rnd 1)" "at_most_one (rnd 1)"
    using k unfolding keeps_order_def by (metis order_refl)+
  then show ?thesis by (cases "rnd 1") simp_all
qed

lemma keeps_order_nonneg: "keeps_order rnd \<Longrightarrow> 0 \<le> y \<Longrightarrow> nonneg (rnd y)"
  unfolding keeps_order_def by blast


lemma keeps_order_at_least_one: "keeps_order rnd \<Longrightarrow> 1 \<le> y \<Longrightarrow> at_least_one (rnd y)"
  unfolding keeps_order_def by blast

lemma sigmoid_rounded_unit:
  assumes k: "keeps_order rnd"
  obtains p where "sigmoid_rounded rnd (Fin x) = Fin p" "0 \<le> p" "p \<le> 1"
proof -
  have E: "nonneg (e_exp rnd (np_neg (Fin x)))"
    using keeps_order_nonneg [OF k, of "exp (- x)"] by (simp add: e_exp_def rounded_def)
  have D: "at_least_one (e_add rnd (Fin 1) (e_exp rnd (np_neg (Fin x))))"
  proof (cases "e_exp rnd (np_neg (Fin x))")
    case (Fin e)
    with E have "0 \<le> e" by simp
    then have "at_least_one (rnd (1 + e))" by (intro keeps_order_at_least_one [OF k]) simp
    with Fin show ?thesis by (simp add: e_add_def rounded_def)
  qed (use E in \<open>simp_all add: e_add_def rounded_def\<close>)
  show ?thesis
  proof (cases "e_add rnd (Fin 1) (e_exp rnd (np_neg (Fin x)))")
    case (Fin d)
    with D have d: "1 \<le> d" by simp
    then have "0 \<le> 1 / d" "1 / d \<le> 1" by simp_all
    then obtain r where "rnd (1 / d) = Fin r" "0 \<le> r" "r \<le> 1"
      using keeps_order_unit [OF k] by blast
    with Fin d show ?thesis using that by (simp add: sigmoid_rounded_def e_div_def rounded_def)
  next
    case PInf
    then show ?thesis using that [of 0] keeps_order_0 [OF k]
      by (simp add: sigmoid_rounded_def e_div_def rounded_def)
  qed (use D in simp_all)
qed

lemma in_unit_cases:
  assumes "in_unit v"
  obtains r where "v = Fin r" "0 \<le> r" "r \<le> 1"
  using assms unfolding in_unit_def by (cases v) simp_all

lemma in_unit_Fin [simp]: "in_unit (Fin r) = (0 \<le> r \<and> r \<le> 1)"
  by (simp add: in_unit_def)

lemma in_unit_rnd: "keeps_order rnd \<Longrightarrow> 0 \<le> y \<Longrightarrow> y \<le> 1 \<Longrightarrow> in_unit (rnd y)"
  unfolding in_unit_def keeps_order_def by blast

lemma in_unit_sigmoid: "keeps_order rnd \<Longrightarrow> in_unit (sigmoid_rounded rnd (Fin x))"
  by (erule sigmoid_rounded_unit [of rnd x]) simp

lemma in_unit_complement:
  assumes k: "keeps_order rnd" and u: "in_unit u"
  shows "in_unit (e_sub rnd (Fin 1) u)"
proof -
  from u obtain r where r: "u = Fin r" "0 \<le> r" "r \<le> 1" by (rule in_unit_cases)
  then have "in_unit (rnd (1 - r))" by (intro in_unit_rnd [OF k]) simp_all
  with r show ?thesis by (simp add: e_sub_def np_sub_def rounded_def)
qed

lemma in_unit_mul:
  assumes k: "keeps_order rnd" and u: "in_unit u" and v: "in_unit v"
  shows "in_unit (e_mul rnd u v)"
proof -
  from u obtain r where r: "u = Fin r" "0 \<le> r" "r \<le> 1" by (rule in_unit_cases)
  from v obtain s where s: "v = Fin s" "0 \<le> s" "s \<le> 1" by (rule in_unit_cases)
  from r s have "0 \<le> r * s" "r * s \<le> 1" by (simp_all add: mult_le_one)
  then have "in_unit (rnd (r * s))" by (rule in_unit_rnd [OF k])
  with r s show ?thesis by (simp add: e_mul_def rounded_def)
qed

lemma mul_zero_right:
  assumes k: "keeps_order rnd" and u: "in_unit u"
  shows "e_mul rnd u (Fin 0) = Fin 0"
proof -
  from u obtain r where r: "u = Fin r" by (rule in_unit_cases)
  then show ?thesis by (simp add: e_mul_def rounded_def keeps_order_0 [OF k])
qed

lemma mul_zero_left:
  assumes k: "keeps_order rnd" and u: "in_unit u"
  shows "e_mul rnd (Fin 0) u = Fin 0"
proof -
  from u obtain r where r: "u = Fin r" by (rule in_unit_cases)
  then show ?thesis by (simp add: e_mul_def rounded_def keeps_order_0 [OF k])
qed

lemma in_unit_add_zero:
  assumes k: "keeps_order rnd" and u: "in_unit u"
  shows "in_unit (e_add rnd u (Fin 0))" "in_unit (e_add rnd (Fin 0) u)"
proof -
  from u obtain r where r: "u = Fin r" "0 \<le> r" "r \<le> 1" by (rule in_unit_cases)
  then have "in_unit (rnd r)" by (intro in_unit_rnd [OF k])
  with r show "in_unit (e_add rnd u (Fin 0))" "in_unit (e_add rnd (Fin 0) u)"
    by (simp_all add: e_add_def rounded_def)
qed

lemma in_unit_power:
  assumes k: "keeps_order rnd" and u: "in_unit u" and g: "0 \<le> g"
  shows "in_unit (e_power rnd u g)"
proof -
  from u obtain r where r: "u = Fin r" "0 \<le> r" "r \<le> 1" by (rule in_unit_cases)
  have one: "in_unit (rnd 1)" and zero: "in_unit (rnd 0)"
    by (simp_all add: keeps_order_0 [OF k] keeps_order_1 [OF k])
  have "r powr g \<le> 1" using r g by (simp add: powr_le1)
  then have pw: "in_unit (rnd (r powr g))" by (intro in_unit_rnd [OF k]) simp_all
  from r g one zero pw show ?thesis
    by (simp add: e_power_def rounded_def)
qed





lemma add_NaN [simp]: "e_add rnd v NaN = NaN" "e_add rnd NaN v = NaN"
  by (cases v; simp add: e_add_def rounded_def)+

lemma mul_NaN [simp]: "e_mul rnd v NaN = NaN" "e_mul rnd NaN v = NaN"
  by (cases v; simp add: e_mul_def rounded_def)+



lemma complement_of_label:
  assumes k: "keeps_order rnd"
  shows "e_sub rnd (Fin 1) (Fin 1) = Fin 0" "e_sub rnd (Fin 1) (Fin 0) = Fin 1"
  by (simp_all add: e_sub_def np_sub_def rounded_def keeps_order_0 [OF k] keeps_order_1 [OF k])

lemma in_unit_class_weight:
  assumes k: "keeps_order rnd" and t: "t = 0 \<or> t = 1" and a: "0 \<le> alpha" "alpha \<le> 1"
  shows "in_unit (class_weight_rounded rnd alpha (Fin t))"
proof -
  have w: "in_unit (rnd (1 - alpha))" using a by (intro in_unit_rnd [OF k]) simp_all
  have al: "in_unit (Fin alpha)" using a by simp
  have one: "in_unit (Fin 1)" by simp
  from t show ?thesis
  proof
    assume t0: "t = 0"
    show ?thesis
      unfolding class_weight_rounded_def t0 complement_of_label [OF k] mul_zero_right [OF k al]
      by (intro in_unit_add_zero [OF k] in_unit_mul [OF k] w one)
  next
    assume t1: "t = 1"
    show ?thesis
      unfolding class_weight_rounded_def t1 complement_of_label [OF k] mul_zero_right [OF k w]
      by (intro in_unit_add_zero [OF k] in_unit_mul [OF k] al one)
  qed
qed

lemma in_unit_modulating_factor:
  assumes k: "keeps_order rnd" and t: "t = 0 \<or> t = 1" and g: "0 \<le> gamma"
    and p: "in_unit p"
  shows "in_unit (modulating_factor_rounded rnd gamma p (Fin t))"
proof -
  have q: "in_unit (e_sub rnd (Fin 1) p)" by (rule in_unit_complement [OF k p])
  have one: "in_unit (Fin 1)" by simp
  have "in_unit (e_add rnd (e_mul rnd (Fin t) p)
                  (e_mul rnd (e_sub rnd (Fin 1) (Fin t)) (e_sub rnd (Fin 1) p)))"
    using t
  proof
    assume t0: "t = 0"
    show ?thesis
      unfolding t0 complement_of_label [OF k] mul_zero_left [OF k p]
      by (intro in_unit_add_zero [OF k] in_unit_mul [OF k] q one)
  next
    assume t1: "t = 1"
    show ?thesis
      unfolding t1 complement_of_label [OF k] mul_zero_left [OF k q]
      by (intro in_unit_add_zero [OF k] in_unit_mul [OF k] p one)
  qed
  then show ?thesis unfolding modulating_factor_rounded_def
    by (intro in_unit_power [OF k] in_unit_complement [OF k] g)
qed



subsection \<open>The exponent 0\<close>

lemma np_power_0: "np_power b 0 = Fin 1"
  by (cases b) simp_all

lemma e_power_0: "keeps_floats rnd \<Longrightarrow> e_power rnd b 0 = Fin 1"
  by (simp add: e_power_def np_power_0 rounded_def keeps_floats_def)

lemma rounded_cases:
  obtains (finite) z r where "rounded rnd w = Fin r" "rnd z = Fin r"
  | (special) "rounded rnd w = PInf \<or> rounded rnd w = NInf \<or> rounded rnd w = NaN"
proof (cases "rounded rnd w")
  case (Fin r)
  then obtain z where "rnd z = Fin r" by (cases w) (auto simp add: rounded_def)
  with Fin show ?thesis by (rule finite)
qed (use special in simp_all)

lemma neg_times_one:
  assumes "keeps_floats rnd"
  shows "e_mul rnd (np_neg (rounded rnd w)) (Fin 1) = np_neg (rounded rnd w)"
proof (cases rule: rounded_cases [of rnd w])
  case (finite z r)
  with assms have "rnd (- r) = Fin (- r)" unfolding keeps_floats_def by blast
  with finite show ?thesis by (simp add: e_mul_def rounded_def)
next
  case special
  then show ?thesis by (auto simp add: e_mul_def rounded_def signed_inf_def)
qed

lemma loss_rounded_gamma_0:
  assumes "keeps_floats rnd"
  shows "loss_rounded rnd alpha 0 x t = weighted_cross_entropy_rounded rnd alpha x t"
proof -
  have "e_mul rnd (np_neg (class_weight_rounded rnd alpha t))
          (modulating_factor_rounded rnd 0 (sigmoid_rounded rnd x) t)
        = np_neg (class_weight_rounded rnd alpha t)"
    unfolding modulating_factor_rounded_def e_power_0 [OF assms]
    unfolding class_weight_rounded_def e_add_def
    by (rule neg_times_one [OF assms])
  then show ?thesis
    by (simp add: loss_rounded_def weighted_cross_entropy_rounded_def)
qed

section \<open>Binary64 at the scores 50 and -50\<close>

text \<open>Near 1 the floats are \<open>2\<^bsup>-53\<^esup>\<close> apart below and \<open>2\<^bsup>-52\<^esup>\<close> above, and
  \<open>exp (-50)\<close> is far smaller: at a score near 50 the sum \<open>1 + exp (-x)\<close> rounds to 1 and
  \<open>p\<close> is exactly 1; at a score near -50, \<open>p\<close> is a tiny positive float and \<open>1 - p\<close>
  rounds to 1.\<close>

lemma two_powr_minus: "(2::real) powr (- real n) = 1 / 2 ^ n"
  by (simp add: powr_minus_divide powr_realpow)

lemma binary64_one_plus_tiny:
  assumes "0 \<le> e" "e \<le> 1 / 2 ^ 54"
  shows "binary64 (1 + e) = Fin 1"
proof (rule binary64_value)
  show "1 + e \<noteq> 0" using assms by simp
  have e1: "e < 1" using assms(2) by (rule le_less_trans) simp
  have s: "spacing (1 + e) = 2 powr (of_int 0 - 52)"
    using assms e1 by (intro spacing_eq) simp_all
  have s': "spacing (1 + e) = 1 / 2 ^ 52"
    unfolding s using two_powr_minus [of 52] by simp
  have "\<bar>(1 + e) * 2 ^ 52 - of_int (2 ^ 52)\<bar> = e * 2 ^ 52"
    using assms by (simp add: algebra_simps)
  also have "\<dots> < 1 / 2" using assms by (simp add: field_simps)
  finally have "round_half_even ((1 + e) * 2 ^ 52) = 2 ^ 52" by (rule round_half_even_near)
  then show "of_int (round_half_even ((1 + e) / spacing (1 + e))) * spacing (1 + e) = 1"
    unfolding s' by simp
  show "\<bar>1::real\<bar> < 2 powr 1024" using one_less_huge by simp
qed

lemma binary64_one_minus_tiny:
  assumes "0 \<le> e" "e \<le> 1 / 2 ^ 55"
  shows "binary64 (1 - e) = Fin 1"
proof (cases "e = 0")
  case True
  then show ?thesis by (simp add: binary64_1)
next
  case False
  show ?thesis
  proof (rule binary64_value)
    have e1: "e \<le> 1 / 2" using assms(2) by (rule order_trans) simp
    then show "1 - e \<noteq> 0" by simp
    have "(2::real) powr of_int (- 1) = 1 / 2"
      using two_powr_minus [of 1] by simp
    then have s: "spacing (1 - e) = 2 powr (of_int (- 1) - 52)"
      using assms e1 False by (intro spacing_eq) simp_all
    have s': "spacing (1 - e) = 1 / 2 ^ 53"
      unfolding s using two_powr_minus [of 53] by simp
    have "\<bar>(1 - e) * 2 ^ 53 - of_int (2 ^ 53)\<bar> = e * 2 ^ 53"
      using assms by (simp add: algebra_simps)
    also have "\<dots> < 1 / 2" using assms by (simp add: field_simps)
    finally have "round_half_even ((1 - e) * 2 ^ 53) = 2 ^ 53" by (rule round_half_even_near)
    then show "of_int (round_half_even ((1 - e) / spacing (1 - e))) * spacing (1 - e) = 1"
      unfolding s' by simp
    show "\<bar>1::real\<bar> < 2 powr 1024" using one_less_huge by simp
  qed
qed

lemma binary64_near_50:
  assumes "49 \<le> y" "y \<le> 51"
  obtains r where "binary64 y = Fin r" "49 \<le> r" "r \<le> 51"
proof -
  have p5: "(2::real) powr of_int 5 = 32" "(2::real) powr (of_int 5 + 1) = 64"
    using powr_realpow [of "2::real" 5] powr_realpow [of "2::real" 6] by simp_all
  have a: "2 powr of_int 5 \<le> \<bar>y\<bar>" using assms p5 by simp
  have b: "\<bar>y\<bar> < 2 powr (of_int 5 + 1)" using assms p5 by simp
  have s: "spacing y = 2 powr (of_int 5 - 52)"
    by (rule spacing_eq [OF a b]) simp
  have s': "spacing y = 1 / 2 ^ 47"
    unfolding s using two_powr_minus [of 47] by simp
  define m where "m = round_half_even (y / spacing y)"
  define r where "r = of_int m * spacing y"
  have lo: "of_int (49 * 2 ^ 47) * spacing y = 49" and hi: "of_int (51 * 2 ^ 47) * spacing y = 51"
    unfolding s' by simp_all
  have "of_int (49 * 2 ^ 47) * spacing y \<le> y" using assms unfolding lo by simp
  then have "of_int (49 * 2 ^ 47) * spacing y \<le> r" unfolding r_def m_def by (rule grid_ge)
  then have r1: "49 \<le> r" unfolding lo .
  have "y \<le> of_int (51 * 2 ^ 47) * spacing y" using assms unfolding hi by simp
  then have "r \<le> of_int (51 * 2 ^ 47) * spacing y" unfolding r_def m_def by (rule grid_le)
  then have r2: "r \<le> 51" unfolding hi .
  have "\<bar>r\<bar> \<le> 51" using r1 r2 by simp
  also have "(51::real) < 2 powr 6" using p5(2) by simp
  also have "(2::real) powr 6 \<le> 2 powr 1024" by (rule powr_mono) simp_all
  finally have "\<bar>r\<bar> < 2 powr 1024" .
  moreover have "y \<noteq> 0" using assms by simp
  ultimately have "binary64 y = Fin r" unfolding r_def m_def by (intro binary64_value) simp_all
  then show ?thesis using r1 r2 by (rule that)
qed

lemma binary64_near_minus_50:
  assumes "- 51 \<le> y" "y \<le> - 49"
  obtains r where "binary64 y = Fin r" "- 51 \<le> r" "r \<le> - 49"
proof -
  have "49 \<le> - y" "- y \<le> 51" using assms by simp_all
  then obtain r where r: "binary64 (- y) = Fin r" "49 \<le> r" "r \<le> 51"
    by (rule binary64_near_50)
  have "binary64 y = np_neg (binary64 (- y))" using binary64_uminus [of "- y"] by simp
  then have "binary64 y = Fin (- r)" using r(1) by simp
  then show ?thesis using r(2,3) by (intro that [of "- r"]) simp_all
qed

lemma binary64_normal:
  assumes "2 powr (- 1022) \<le> y" "y \<le> 2 powr 1022"
  obtains r where "binary64 y = Fin r" "y / 2 \<le> r" "r \<le> 2 * y"
proof -
  have pos: "0 < y" using assms(1) by (rule less_le_trans [rotated]) simp
  define k where "k = \<lfloor>log 2 y\<rfloor>"
  have "- 1022 \<le> log 2 y" using assms(1) pos by (simp add: le_log_iff)
  then have k: "- 1022 \<le> k" unfolding k_def by (simp add: le_floor_iff)
  have "of_int k \<le> log 2 y" "log 2 y < of_int k + 1" unfolding k_def by linarith+
  then have a: "2 powr of_int k \<le> \<bar>y\<bar>" and b: "\<bar>y\<bar> < 2 powr (of_int k + 1)"
    using pos by (simp_all add: le_log_iff log_less_iff)
  have s: "spacing y = 2 powr (of_int k - 52)" using a b k by (rule spacing_eq)
  have "(2::real) powr of_int k = 2 powr (52 + (of_int k - 52))" by simp
  also have "\<dots> = 2 powr 52 * spacing y" unfolding s by (rule powr_add)
  also have "(2::real) powr 52 = of_int (2 ^ 52)" using two_powr_of_int [of 52] by simp
  finally have lo: "2 powr of_int k = of_int (2 ^ 52) * spacing y" .
  have "(2::real) powr (of_int k + 1) = 2 powr (53 + (of_int k - 52))" by (simp add: add.commute)
  also have "\<dots> = 2 powr 53 * spacing y" unfolding s by (rule powr_add)
  also have "(2::real) powr 53 = of_int (2 ^ 53)" by (rule two_powr_53)
  finally have hi: "2 powr (of_int k + 1) = of_int (2 ^ 53) * spacing y" .
  have dbl: "(2::real) powr (of_int k + 1) = 2 * 2 powr of_int k"
    using powr_add [of "2::real" "of_int k" 1] by simp
  define r where "r = of_int (round_half_even (y / spacing y)) * spacing y"
  have "of_int (2 ^ 52) * spacing y \<le> y" using a pos unfolding lo by simp
  then have "of_int (2 ^ 52) * spacing y \<le> r" unfolding r_def by (rule grid_ge)
  then have r1: "2 powr of_int k \<le> r" unfolding lo .
  have "y \<le> of_int (2 ^ 53) * spacing y" using b pos unfolding hi by simp
  then have "r \<le> of_int (2 ^ 53) * spacing y" unfolding r_def by (rule grid_le)
  then have r2: "r \<le> 2 * 2 powr of_int k" unfolding hi [symmetric] dbl .
  have lower: "y / 2 \<le> r" using r1 b pos unfolding dbl by simp
  have upper: "r \<le> 2 * y" using r2 a pos by simp
  have "0 \<le> r" using r1 by (rule order_trans [rotated]) simp
  then have "\<bar>r\<bar> \<le> 2 * y" using upper by simp
  also have "\<dots> \<le> 2 * 2 powr 1022" using assms(2) by simp
  also have "\<dots> = (2::real) powr (1022 + 1)" using powr_add [of "2::real" 1022 1] by simp
  also have "\<dots> < 2 powr 1024" by (rule powr_less_mono) simp_all
  finally have "\<bar>r\<bar> < 2 powr 1024" .
  moreover have "y \<noteq> 0" using pos by simp
  ultimately have "binary64 y = Fin r" unfolding r_def by (intro binary64_value) simp_all
  then show ?thesis using lower upper by (rule that)
qed

lemma binary64_small:
  assumes "\<bar>y\<bar> \<le> 1"
  obtains r where "binary64 y = Fin r" "\<bar>r\<bar> \<le> 1"
proof (cases "0 \<le> y")
  case True
  with assms have "in_unit (binary64 y)" by (intro in_unit_rnd keeps_order_binary64) simp_all
  then obtain r where "binary64 y = Fin r" "0 \<le> r" "r \<le> 1" by (rule in_unit_cases)
  then show ?thesis by (intro that [of r]) simp_all
next
  case False
  with assms have "in_unit (binary64 (- y))"
    by (intro in_unit_rnd keeps_order_binary64) simp_all
  then obtain r where r: "binary64 (- y) = Fin r" "0 \<le> r" "r \<le> 1" by (rule in_unit_cases)
  have "binary64 y = np_neg (binary64 (- y))" using binary64_uminus [of "- y"] by simp
  then have "binary64 y = Fin (- r)" using r(1) by simp
  then show ?thesis using r(2,3) by (intro that [of "- r"]) simp_all
qed

lemma binary64_finite:
  assumes "\<bar>y\<bar> \<le> 2 powr 1022"
  obtains r where "binary64 y = Fin r"
proof (cases "\<bar>y\<bar> \<le> 1")
  case True
  then show ?thesis using that by (rule binary64_small)
next
  case False
  have "(2::real) powr (- 1022) \<le> 2 powr 0" by (rule powr_mono) simp_all
  then have "2 powr (- 1022) \<le> \<bar>y\<bar>" using False by simp
  then obtain r where r: "binary64 \<bar>y\<bar> = Fin r" using assms by (rule binary64_normal)
  show ?thesis
  proof (cases "0 \<le> y")
    case True
    with r show ?thesis using that by simp
  next
    case False
    then have "binary64 y = np_neg (binary64 \<bar>y\<bar>)" using binary64_uminus [of "- y"] by simp
    with r show ?thesis using that by simp
  qed
qed

lemma exp_49_lower: "(2::real) ^ 60 \<le> exp 49"
proof -
  have "(5 / 2 :: real) \<le> exp 1"
    using exp_lower_Taylor_quadratic [of "1::real"] by simp
  then have "(5 / 2 :: real) ^ 49 \<le> exp 1 ^ 49" by (intro power_mono) simp_all
  also have "\<dots> = exp (49 :: real)" by (simp add: exp_of_nat_mult [symmetric])
  finally have "(5 / 2 :: real) ^ 49 \<le> exp 49" .
  moreover have "(2 :: real) ^ 60 \<le> (5 / 2) ^ 49" by (simp add: power_divide)
  ultimately show ?thesis by linarith
qed

lemma exp_51_upper: "exp (51::real) \<le> 2 ^ 102"
proof -
  have "exp (51 :: real) = exp 1 ^ 51" by (simp add: exp_of_nat_mult [symmetric])
  also have "\<dots> \<le> (3::real) ^ 51" by (intro power_mono exp_le) simp
  also have "\<dots> \<le> 2 ^ 102" by simp
  finally show ?thesis .
qed

lemma exp_near_50:
  assumes "49 \<le> v" "v \<le> 51"
  shows "(2::real) ^ 60 \<le> exp v" "exp v \<le> 2 ^ 102"
proof -
  have "exp 49 \<le> exp v" "exp v \<le> exp 51" using assms by simp_all
  then show "(2::real) ^ 60 \<le> exp v" "exp v \<le> 2 ^ 102"
    using exp_49_lower exp_51_upper by linarith+
qed

lemma power_in_range:
  assumes "n \<le> 1022"
  shows "(2::real) ^ n \<le> 2 powr 1022" "2 powr (- 1022) \<le> 1 / (2::real) ^ n"
    "2 powr (- 1022) \<le> (2::real) ^ n" "1 / (2::real) ^ n \<le> 2 powr 1022"
proof -
  have "(2::real) powr real n \<le> 2 powr 1022" using assms by (intro powr_mono) simp_all
  then show a: "(2::real) ^ n \<le> 2 powr 1022" by (simp add: powr_realpow)
  have "(2::real) powr (- 1022) \<le> 2 powr (- real n)" using assms by (intro powr_mono) simp_all
  then show b: "2 powr (- 1022) \<le> 1 / (2::real) ^ n" by (simp only: two_powr_minus)
  have "1 / (2::real) ^ n \<le> 1" by simp
  also have "(1::real) \<le> 2 ^ n" by simp
  finally have c: "1 / (2::real) ^ n \<le> 2 ^ n" .
  from b c show "2 powr (- 1022) \<le> (2::real) ^ n" by linarith
  from c a show "1 / (2::real) ^ n \<le> 2 powr 1022" by linarith
qed

lemma sigmoid_binary64_near_50:
  assumes "49 \<le> v" "v \<le> 51"
  shows "sigmoid_rounded binary64 (Fin v) = Fin 1"
proof -
  have ex: "(2::real) ^ 60 \<le> exp v" "exp v \<le> 2 ^ 102" using assms by (rule exp_near_50)+
  have em: "exp (- v) = 1 / exp v" by (simp add: exp_minus inverse_eq_divide)
  have up: "exp (- v) \<le> 1 / 2 ^ 60" unfolding em using ex(1) by (intro divide_left_mono) simp_all
  have lo: "1 / 2 ^ 102 \<le> exp (- v)" unfolding em using ex(2) by (intro divide_left_mono) simp_all
  have "2 powr (- 1022) \<le> exp (- v)" using power_in_range(2) [of 102] lo by simp
  moreover have "exp (- v) \<le> 2 powr 1022" using power_in_range(4) [of 60] up by simp
  ultimately obtain e where e: "binary64 (exp (- v)) = Fin e" "exp (- v) / 2 \<le> e"
    "e \<le> 2 * exp (- v)"
    by (rule binary64_normal)
  have "0 \<le> e" using e(2) by (rule order_trans [rotated]) simp
  moreover have "e \<le> 1 / 2 ^ 54" using e(3) up by simp
  ultimately have "binary64 (1 + e) = Fin 1" by (rule binary64_one_plus_tiny)
  then show ?thesis
    by (simp add: sigmoid_rounded_def e_div_def e_add_def e_exp_def rounded_def e(1) binary64_1)
qed

lemma sigmoid_binary64_near_minus_50:
  assumes "- 51 \<le> v" "v \<le> - 49"
  obtains p where "sigmoid_rounded binary64 (Fin v) = Fin p" "1 / 2 ^ 106 \<le> p" "p \<le> 1 / 2 ^ 57"
proof -
  have ex: "(2::real) ^ 60 \<le> exp (- v)" "exp (- v) \<le> 2 ^ 102"
    using assms by (intro exp_near_50; simp)+
  have "2 powr (- 1022) \<le> exp (- v)" using power_in_range(3) [of 60] ex(1) by simp
  moreover have "exp (- v) \<le> 2 powr 1022" using power_in_range(1) [of 102] ex(2) by simp
  ultimately obtain e where e: "binary64 (exp (- v)) = Fin e" "exp (- v) / 2 \<le> e"
    "e \<le> 2 * exp (- v)"
    by (rule binary64_normal)
  have e1: "2 ^ 59 \<le> e" using e(2) ex(1) by simp
  have e2: "e \<le> 2 ^ 103" using e(3) ex(2) by simp
  have "2 powr (- 1022) \<le> 1 + e" using power_in_range(3) [of 59] e1 by simp
  moreover have "1 + e \<le> 2 powr 1022" using power_in_range(1) [of 104] e2 by simp
  ultimately obtain d where d: "binary64 (1 + e) = Fin d" "(1 + e) / 2 \<le> d" "d \<le> 2 * (1 + e)"
    by (rule binary64_normal)
  have d1: "2 ^ 58 \<le> d" using d(2) e1 by simp
  have d2: "d \<le> 2 ^ 105" using d(3) e2 by simp
  have dpos: "0 < d" using d1 by (rule less_le_trans [rotated]) simp
  have up: "1 / d \<le> 1 / 2 ^ 58" using d1 by (intro divide_left_mono) simp_all
  have lo: "1 / 2 ^ 105 \<le> 1 / d" using d2 dpos by (intro divide_left_mono) simp_all
  have "2 powr (- 1022) \<le> 1 / d" using power_in_range(2) [of 105] lo by simp
  moreover have "1 / d \<le> 2 powr 1022" using power_in_range(4) [of 58] up by simp
  ultimately obtain p where p: "binary64 (1 / d) = Fin p" "1 / d / 2 \<le> p" "p \<le> 2 * (1 / d)"
    by (rule binary64_normal)
  have "sigmoid_rounded binary64 (Fin v) = Fin p"
    using dpos
    by (simp add: sigmoid_rounded_def e_div_def e_add_def e_exp_def rounded_def e(1) d(1) p(1))
  moreover have "1 / 2 ^ 106 \<le> p" using p(2) lo by simp
  moreover have "p \<le> 1 / 2 ^ 57" using p(3) up by simp
  ultimately show ?thesis by (rule that)
qed

lemma loss_binary64_near_50:
  assumes "49 \<le> v" "v \<le> 51"
  shows "loss_rounded binary64 alpha gamma (Fin v) (Fin 1) = NaN"
proof -
  have "cross_entropy_rounded binary64 (Fin 1) (Fin 1) = NaN"
    by (simp add: cross_entropy_rounded_def e_sub_def np_sub_def e_log_def e_mul_def
        rounded_def)
  then show ?thesis
    by (simp add: loss_rounded_def sigmoid_binary64_near_50 [OF assms])
qed

lemma log_binary64_finite:
  assumes "1 / 2 ^ 106 \<le> p" "p \<le> 1"
  obtains l where "e_log binary64 (Fin p) = Fin l"
proof -
  have pos: "0 < p" using assms(1) by (rule less_le_trans [rotated]) simp
  have "ln (1 / p) \<le> 1 / p - 1" using pos by (intro ln_le_minus_one) simp
  moreover have "1 / p \<le> 1 / (1 / 2 ^ 106)" using assms(1) by (intro divide_left_mono) simp_all
  ultimately have "ln (1 / p) \<le> 2 ^ 106" by simp
  moreover have "ln (1 / p) = - ln p" using pos by (simp add: ln_div)
  moreover have "ln p \<le> 0" using pos assms(2) by simp
  ultimately have "\<bar>ln p\<bar> \<le> 2 ^ 106" by simp
  then have "\<bar>ln p\<bar> \<le> 2 powr 1022" using power_in_range(1) [of 106] by simp
  then obtain l where "binary64 (ln p) = Fin l" by (rule binary64_finite)
  then have "e_log binary64 (Fin p) = Fin l" using pos by (simp add: e_log_def rounded_def)
  then show ?thesis by (rule that)
qed

lemma cross_entropy_binary64_near_minus_50:
  assumes "1 / 2 ^ 106 \<le> p" "p \<le> 1 / 2 ^ 57"
  shows "cross_entropy_rounded binary64 (Fin p) (Fin 0) = Fin 0"
proof -
  have p1: "p \<le> 1" using assms(2) by (rule order_trans) simp
  obtain l where l: "e_log binary64 (Fin p) = Fin l" using assms(1) p1 by (rule log_binary64_finite)
  have "0 \<le> p" using assms(1) by (rule order_trans [rotated]) simp
  moreover have "p \<le> 1 / 2 ^ 55" using assms(2) by (rule order_trans) simp
  ultimately have q: "binary64 (1 - p) = Fin 1" by (rule binary64_one_minus_tiny)
  have s0: "e_sub binary64 (Fin 1) (Fin 0) = Fin 1"
    by (simp add: e_sub_def np_sub_def rounded_def binary64_1)
  have sp: "e_sub binary64 (Fin 1) (Fin p) = Fin 1"
    by (simp add: e_sub_def np_sub_def rounded_def q)
  have l1: "e_log binary64 (Fin 1) = Fin 0" by (simp add: e_log_def rounded_def)
  show ?thesis unfolding cross_entropy_rounded_def l s0 sp l1
    by (simp add: e_mul_def e_add_def rounded_def)
qed

lemma loss_binary64_near_minus_50:
  assumes v: "- 51 \<le> v" "v \<le> - 49" and a: "0 \<le> alpha" "alpha \<le> 1" and g: "0 \<le> gamma"
  shows "loss_rounded binary64 alpha gamma (Fin v) (Fin 0) = Fin 0"
proof -
  note k = keeps_order_binary64
  obtain p where p: "sigmoid_rounded binary64 (Fin v) = Fin p" "1 / 2 ^ 106 \<le> p" "p \<le> 1 / 2 ^ 57"
    using v by (rule sigmoid_binary64_near_minus_50)
  have c: "cross_entropy_rounded binary64 (Fin p) (Fin 0) = Fin 0"
    using p(2,3) by (rule cross_entropy_binary64_near_minus_50)
  have pu: "in_unit (sigmoid_rounded binary64 (Fin v))" by (rule in_unit_sigmoid [OF k])
  have "in_unit (class_weight_rounded binary64 alpha (Fin 0))"
    by (rule in_unit_class_weight [OF k _ a]) simp
  then obtain w where w: "class_weight_rounded binary64 alpha (Fin 0) = Fin w" "0 \<le> w" "w \<le> 1"
    by (rule in_unit_cases)
  have "in_unit (modulating_factor_rounded binary64 gamma (sigmoid_rounded binary64 (Fin v)) (Fin 0))"
    by (rule in_unit_modulating_factor [OF k _ g pu]) simp
  then obtain b where b:
    "modulating_factor_rounded binary64 gamma (sigmoid_rounded binary64 (Fin v)) (Fin 0) = Fin b"
    "0 \<le> b" "b \<le> 1"
    by (rule in_unit_cases)
  have "\<bar>- w * b\<bar> \<le> 1" using w(2,3) b(2,3) by (simp add: abs_mult mult_le_one)
  then obtain m where m: "binary64 (- w * b) = Fin m" by (rule binary64_small)
  show ?thesis unfolding loss_rounded_def w(1) b(1) unfolding p(1) c
    using m by (simp add: e_mul_def rounded_def)
qed

lemma step_binary64:
  obtains d d2 where "binary64 (1 / 10 ^ 6) = Fin d" "0 < d" "d \<le> 1"
    "binary64 (d * d) = Fin d2" "0 < d2"
proof -
  have "(1::real) / 2 ^ 20 \<le> 1 / 10 ^ 6" by simp
  then have "2 powr (- 1022) \<le> (1::real) / 10 ^ 6"
    using power_in_range(2) [of 20] by linarith
  moreover have "(1::real) / 10 ^ 6 \<le> 2 powr 1022"
    using power_in_range(1) [of 0] by simp
  ultimately obtain d where d: "binary64 (1 / 10 ^ 6) = Fin d" "1 / 10 ^ 6 / 2 \<le> d"
    "d \<le> 2 * (1 / 10 ^ 6)"
    by (rule binary64_normal)
  have d0: "0 < d" using d(2) by (rule less_le_trans [rotated]) simp
  have d1: "d \<le> 1" using d(3) by simp
  have "(1 / 2 ^ 21) * (1 / 2 ^ 21) \<le> d * d"
    using d(2) by (intro mult_mono) simp_all
  then have "(1::real) / 2 ^ 42 \<le> d * d" by simp
  then have "2 powr (- 1022) \<le> d * d" using power_in_range(2) [of 42] by linarith
  moreover have "d * d \<le> 1" using d0 d1 by (simp add: mult_le_one)
  then have "d * d \<le> 2 powr 1022" using power_in_range(1) [of 0] by simp
  ultimately obtain d2 where d2: "binary64 (d * d) = Fin d2" "d * d / 2 \<le> d2"
    by (rule binary64_normal)
  have "0 < d * d / 2" using d0 by simp
  then have "0 < d2" using d2(2) by linarith
  with d(1) d0 d1 d2(1) show ?thesis by (rule that)
qed

lemma sample_near_50:
  assumes "\<bar>k\<bar> \<le> 1" "\<bar>d\<bar> \<le> 1"
  obtains r where "e_add binary64 (Fin 50) (e_mul binary64 (Fin k) (Fin d)) = Fin r"
    "49 \<le> r" "r \<le> 51"
proof -
  have "\<bar>k * d\<bar> \<le> 1" using assms by (simp add: abs_mult mult_le_one)
  then obtain m where m: "binary64 (k * d) = Fin m" "\<bar>m\<bar> \<le> 1" by (rule binary64_small)
  then have "49 \<le> 50 + m" "50 + m \<le> 51" by simp_all
  then obtain r where "binary64 (50 + m) = Fin r" "49 \<le> r" "r \<le> 51"
    by (rule binary64_near_50)
  then show ?thesis using m(1) by (intro that [of r]) (simp_all add: e_add_def e_mul_def rounded_def)
qed

lemma sample_near_minus_50:
  assumes "\<bar>k\<bar> \<le> 1" "\<bar>d\<bar> \<le> 1"
  obtains r where "e_add binary64 (Fin (- 50)) (e_mul binary64 (Fin k) (Fin d)) = Fin r"
    "- 51 \<le> r" "r \<le> - 49"
proof -
  have "\<bar>k * d\<bar> \<le> 1" using assms by (simp add: abs_mult mult_le_one)
  then obtain m where m: "binary64 (k * d) = Fin m" "\<bar>m\<bar> \<le> 1" by (rule binary64_small)
  then have "- 51 \<le> - 50 + m" "- 50 + m \<le> - 49" by simp_all
  then obtain r where "binary64 (- 50 + m) = Fin r" "- 51 \<le> r" "r \<le> - 49"
    by (rule binary64_near_minus_50)
  then show ?thesis using m(1) by (intro that [of r]) (simp_all add: e_add_def e_mul_def rounded_def)
qed

subsection \<open>The difference quotient on one-element arrays\<close>

lemma derivative_rounded_single:
  assumes f: "\<And>y. func (Inr (Array [y])) = Inr (Array [f y])" and n: "n = 1 \<or> n = 2"
  shows "derivative_rounded rnd func (Inr (Array [x])) (Inr (Scalar dx)) n =
     Inr (Array [e_div rnd
        (e_add rnd
           (e_add rnd
              (e_add rnd (Fin 0)
                 (e_mul rnd (Fin (central_diff_weights n ! 0))
                    (f (e_add rnd x (e_mul rnd (Fin (- 1)) dx)))))
              (e_mul rnd (Fin (central_diff_weights n ! 1))
                 (f (e_add rnd x (e_mul rnd (Fin 0) dx)))))
           (e_mul rnd (Fin (central_diff_weights n ! 2))
              (f (e_add rnd x (e_mul rnd (Fin 1) dx)))))
        (if n = 1 then dx else e_mul rnd dx dx)])"
  using n by (auto simp add: derivative_rounded_def central_diff_weights_def dx_product_def
      r_defs f lift2_Array_Array)

lemma div_NaN [simp]: "e_div rnd NaN v = NaN"
  by (simp add: e_div_def rounded_def)

lemma derivative_rounded_of_NaN:
  assumes f: "\<And>y. func (Inr (Array [y])) = Inr (Array [f y])" and n: "n = 1 \<or> n = 2"
    and "f (e_add rnd x (e_mul rnd (Fin 1) dx)) = NaN"
  shows "derivative_rounded rnd func (Inr (Array [x])) (Inr (Scalar dx)) n = Inr (Array [NaN])"
  unfolding derivative_rounded_single [of func f, OF f n] using assms(3) by simp

lemma derivative_binary64_of_zero:
  assumes f: "\<And>y. func (Inr (Array [y])) = Inr (Array [f y])" and n: "n = 1 \<or> n = 2"
    and "f (e_add binary64 x (e_mul binary64 (Fin (- 1)) dx)) = Fin 0"
    and "f (e_add binary64 x (e_mul binary64 (Fin 0) dx)) = Fin 0"
    and "f (e_add binary64 x (e_mul binary64 (Fin 1) dx)) = Fin 0"
    and "dx = Fin d" "d \<noteq> 0" "binary64 (d * d) = Fin d2" "d2 \<noteq> 0"
  shows "derivative_rounded binary64 func (Inr (Array [x])) (Inr (Scalar dx)) n
         = Inr (Array [Fin 0])"
  unfolding derivative_rounded_single [of func f, OF f n] using assms(3-)
  by (simp add: e_add_def e_mul_def e_div_def rounded_def)

lemma objective_rounded_unfold:
  "focal_loss_lgb_rounded rnd y_pred dtrain a g =
   pair_result
     (derivative_rounded rnd (\<lambda>x. fl_rounded rnd a g x (Inr (label dtrain))) (Inr y_pred)
        (Inr (Scalar (rnd (1 / 10 ^ 6)))) 1)
     (derivative_rounded rnd (\<lambda>x. fl_rounded rnd a g x (Inr (label dtrain))) (Inr y_pred)
        (Inr (Scalar (rnd (1 / 10 ^ 6)))) 2)"
  unfolding focal_loss_lgb_rounded_def Let_def ..

lemma pair_result_Inr: "pair_result (Inr a) (Inr b) = Inr (a, b)"
  by (simp add: pair_result_def)

subsection \<open>The objective and the evaluation function\<close>

lemma objective_binary64_at_50:
  "focal_loss_lgb_rounded binary64 (Array [Fin 50]) \<lparr>label = Array [Fin 1]\<rparr> alpha gamma
   = Inr (Array [NaN], Array [NaN])"
proof -
  obtain d d2 where d: "binary64 (1 / 10 ^ 6) = Fin d" "0 < d" "d \<le> 1"
    by (rule step_binary64)
  have k1: "\<bar>1::real\<bar> \<le> 1" by simp
  have dd: "\<bar>d\<bar> \<le> 1" using d(2,3) by simp
  obtain r where r: "e_add binary64 (Fin 50) (e_mul binary64 (Fin 1) (Fin d)) = Fin r"
    "49 \<le> r" "r \<le> 51"
    by (rule sample_near_50 [OF k1 dd])
  have nan: "loss_rounded binary64 alpha gamma
               (e_add binary64 (Fin 50) (e_mul binary64 (Fin 1) (Fin d))) (Fin 1) = NaN"
    unfolding r(1) using r(2,3) by (rule loss_binary64_near_50)
  have f: "\<And>y. fl_rounded binary64 alpha gamma (Inr (Array [y])) (Inr (Array [Fin 1]))
             = Inr (Array [loss_rounded binary64 alpha gamma y (Fin 1)])"
    by (rule fl_rounded_single)
  have gen: "derivative_rounded binary64
          (\<lambda>x. fl_rounded binary64 alpha gamma x (Inr (Array [Fin 1])))
          (Inr (Array [Fin 50])) (Inr (Scalar (Fin d))) n = Inr (Array [NaN])"
    if "n = 1 \<or> n = 2" for n
    using f that nan by (rule derivative_rounded_of_NaN)
  have g1: "derivative_rounded binary64
          (\<lambda>x. fl_rounded binary64 alpha gamma x (Inr (Array [Fin 1])))
          (Inr (Array [Fin 50])) (Inr (Scalar (Fin d))) 1 = Inr (Array [NaN])"
    by (rule gen) simp
  have g2: "derivative_rounded binary64
          (\<lambda>x. fl_rounded binary64 alpha gamma x (Inr (Array [Fin 1])))
          (Inr (Array [Fin 50])) (Inr (Scalar (Fin d))) 2 = Inr (Array [NaN])"
    by (rule gen) simp
  show ?thesis
    unfolding objective_rounded_unfold d(1) dataset.simps g1 g2 by (rule pair_result_Inr)
qed

lemma mean_rounded_single:
  "np_mean_rounded rnd (Array [v]) = e_div rnd (e_add rnd (Fin 0) v) (Fin 1)"
  by (simp add: np_sum_rounded_def)

lemma eval_binary64_at_50:
  "focal_loss_lgb_eval_error_rounded binary64 (Array [Fin 50]) \<lparr>label = Array [Fin 1]\<rparr>
     alpha gamma = Inr (''focal_loss'', NaN, False)"
proof -
  have "loss_rounded binary64 alpha gamma (Fin 50) (Fin 1) = NaN"
    by (rule loss_binary64_near_50) simp_all
  then show ?thesis
    by (simp add: eval_rounded_via_fl fl_rounded_single np_sum_rounded_def)
qed

lemma objective_binary64_at_minus_50:
  assumes a: "0 \<le> alpha" "alpha \<le> 1" and g: "0 \<le> gamma"
  shows "focal_loss_lgb_rounded binary64 (Array [Fin (- 50)]) \<lparr>label = Array [Fin 0]\<rparr>
           alpha gamma = Inr (Array [Fin 0], Array [Fin 0])"
proof -
  obtain d d2 where d: "binary64 (1 / 10 ^ 6) = Fin d" "0 < d" "d \<le> 1"
    "binary64 (d * d) = Fin d2" "0 < d2"
    by (rule step_binary64)
  have dd: "\<bar>d\<bar> \<le> 1" using d(2,3) by simp
  have zero: "loss_rounded binary64 alpha gamma
               (e_add binary64 (Fin (- 50)) (e_mul binary64 (Fin k) (Fin d))) (Fin 0) = Fin 0"
    if k: "\<bar>k\<bar> \<le> 1" for k
  proof -
    obtain r where r: "e_add binary64 (Fin (- 50)) (e_mul binary64 (Fin k) (Fin d)) = Fin r"
      "- 51 \<le> r" "r \<le> - 49"
      by (rule sample_near_minus_50 [OF k dd])
    show ?thesis unfolding r(1) using r(2,3) a g by (rule loss_binary64_near_minus_50)
  qed
  have z1: "loss_rounded binary64 alpha gamma
               (e_add binary64 (Fin (- 50)) (e_mul binary64 (Fin (- 1)) (Fin d))) (Fin 0) = Fin 0"
    by (rule zero) simp
  have z2: "loss_rounded binary64 alpha gamma
               (e_add binary64 (Fin (- 50)) (e_mul binary64 (Fin 0) (Fin d))) (Fin 0) = Fin 0"
    by (rule zero) simp
  have z3: "loss_rounded binary64 alpha gamma
               (e_add binary64 (Fin (- 50)) (e_mul binary64 (Fin 1) (Fin d))) (Fin 0) = Fin 0"
    by (rule zero) simp
  have f: "\<And>y. fl_rounded binary64 alpha gamma (Inr (Array [y])) (Inr (Array [Fin 0]))
             = Inr (Array [loss_rounded binary64 alpha gamma y (Fin 0)])"
    by (rule fl_rounded_single)
  have d0: "d \<noteq> 0" "d2 \<noteq> 0" using d(2,5) by simp_all
  have gen: "derivative_rounded binary64
          (\<lambda>x. fl_rounded binary64 alpha gamma x (Inr (Array [Fin 0])))
          (Inr (Array [Fin (- 50)])) (Inr (Scalar (Fin d))) n = Inr (Array [Fin 0])"
    if "n = 1 \<or> n = 2" for n
    using f that z1 z2 z3 refl d0(1) d(4) d0(2) by (rule derivative_binary64_of_zero)
  have g1: "derivative_rounded binary64
          (\<lambda>x. fl_rounded binary64 alpha gamma x (Inr (Array [Fin 0])))
          (Inr (Array [Fin (- 50)])) (Inr (Scalar (Fin d))) 1 = Inr (Array [Fin 0])"
    by (rule gen) simp
  have g2: "derivative_rounded binary64
          (\<lambda>x. fl_rounded binary64 alpha gamma x (Inr (Array [Fin 0])))
          (Inr (Array [Fin (- 50)])) (Inr (Scalar (Fin d))) 2 = Inr (Array [Fin 0])"
    by (rule gen) simp
  show ?thesis
    unfolding objective_rounded_unfold d(1) dataset.simps g1 g2 by (rule pair_result_Inr)
qed

lemma eval_binary64_at_minus_50:
  assumes a: "0 \<le> alpha" "alpha \<le> 1" and g: "0 \<le> gamma"
  shows "focal_loss_lgb_eval_error_rounded binary64 (Array [Fin (- 50)])
           \<lparr>label = Array [Fin 0]\<rparr> alpha gamma = Inr (''focal_loss'', Fin 0, False)"
proof -
  have "loss_rounded binary64 alpha gamma (Fin (- 50)) (Fin 0) = Fin 0"
    using _ _ a g by (rule loss_binary64_near_minus_50) simp_all
  then show ?thesis
    by (simp add: eval_rounded_via_fl fl_rounded_single np_sum_rounded_def e_add_def e_div_def
        rounded_def)
qed

lemma p_binary64_at_50:
  "r_div binary64 (py_float 1)
     (r_add binary64 (py_float 1) (r_exp binary64 (v_neg (Inr (Array [Fin 50])))))
   = Inr (Array [Fin 1])"
proof -
  have "sigmoid_rounded binary64 (Fin 50) = Fin 1"
    by (rule sigmoid_binary64_near_50) simp_all
  then show ?thesis by (simp add: r_defs sigmoid_rounded_def)
qed

section \<open>Arguments that are not validated\<close>

text \<open>
  Claim C2 says that a call with vectors of different lengths, a label outside
  \<open>{0, 1}\<close>, an \<open>alpha\<close> outside \<open>[0, 1]\<close> or a negative \<open>gamma\<close> fails with an
  invalid-argument error. The functions check none of these. A label 2 is accepted and
  gives a negative mean loss; \<open>alpha = 2\<close> with \<open>gamma = -1\<close> is accepted; two
  predictions against one label are broadcast, and the objective returns two gradients
  and two Hessians.
\<close>

theorem no_validation_counterexample:
  "focal_loss_lgb_eval_error (Array [Fin 0]) \<lparr>label = Array [Fin 2]\<rparr> (1 / 4) 2 =
     Inr (''focal_loss'', Fin (- ln 2 / 16), False)
   \<and> focal_loss_lgb_eval_error (Array [Fin 0]) \<lparr>label = Array [Fin 1]\<rparr> 2 (- 1) =
     Inr (''focal_loss'', Fin (4 * ln 2), False)
   \<and> (\<exists>gs hs. focal_loss_lgb (Array [Fin 0, Fin 0]) \<lparr>label = Array [Fin 1]\<rparr> (1 / 4) 2 =
        Inr (Array gs, Array hs) \<and> length gs = 2 \<and> length hs = 2)"
proof -
  have 1: "focal_loss_lgb_eval_error (Array [Fin 0]) \<lparr>label = Array [Fin 2]\<rparr> (1 / 4) 2 =
     Inr (''focal_loss'', Fin (- ln 2 / 16), False)"
    by (simp add: eval_arrays np_sum_def fl_elem_def np_sub_def ln_div power2_eq_square)
  have 2: "focal_loss_lgb_eval_error (Array [Fin 0]) \<lparr>label = Array [Fin 1]\<rparr> 2 (- 1) =
     Inr (''focal_loss'', Fin (4 * ln 2), False)"
    by (simp add: eval_arrays np_sum_def fl_elem_def np_sub_def ln_div powr_minus)
  have 3: "\<exists>gs hs. focal_loss_lgb (Array [Fin 0, Fin 0]) \<lparr>label = Array [Fin 1]\<rparr> (1 / 4) 2 =
        Inr (Array gs, Array hs) \<and> length gs = 2 \<and> length hs = 2"
    using objective_ok [of "[Fin 0, Fin 0]" "[Fin 1]" "1 / 4" 2]
    by (simp add: broadcastable_def numeral_2_eq_2)
  from 1 2 3 show ?thesis by blast
qed

text \<open>
  Claim C2, amended. The only failure of the four functions on two arrays is numpy's
  own broadcasting error: each raises \<open>ValueError\<close> exactly when the two lengths
  differ and neither of them is 1. Whatever the labels, \<open>alpha\<close> and \<open>gamma\<close> are, they
  are computed on.
\<close>

theorem raises_exactly_on_broadcast_mismatch:
  "(focal_loss_lgb (Array xs) \<lparr>label = Array ts\<rparr> alpha gamma = Inl ValueError) =
     (length xs \<noteq> length ts \<and> length xs \<noteq> 1 \<and> length ts \<noteq> 1)
   \<and> (focal_loss_lgb_eval_error (Array xs) \<lparr>label = Array ts\<rparr> alpha gamma = Inl ValueError) =
     (length xs \<noteq> length ts \<and> length xs \<noteq> 1 \<and> length ts \<noteq> 1)
   \<and> (focal_loss_lgb_sk (Array ts) (Array xs) alpha gamma = Inl ValueError) =
     (length xs \<noteq> length ts \<and> length xs \<noteq> 1 \<and> length ts \<noteq> 1)
   \<and> (focal_loss_lgb_eval_error_sk (Array ts) (Array xs) alpha gamma = Inl ValueError) =
     (length xs \<noteq> length ts \<and> length xs \<noteq> 1 \<and> length ts \<noteq> 1)"
proof (cases "broadcastable (length xs) (length ts)")
  case True
  then have "length xs = length ts \<or> length xs = 1 \<or> length ts = 1"
    by (simp add: broadcastable_def)
  moreover have "focal_loss_lgb (Array xs) \<lparr>label = Array ts\<rparr> alpha gamma \<noteq> Inl ValueError"
    using objective_ok [OF True, of alpha gamma] by auto
  moreover have
    "focal_loss_lgb_eval_error (Array xs) \<lparr>label = Array ts\<rparr> alpha gamma \<noteq> Inl ValueError"
    using eval_ok [OF True, of alpha gamma] by auto
  ultimately show ?thesis by (auto simp add: sk_objective sk_eval)
next
  case False
  then have "length xs \<noteq> length ts \<and> length xs \<noteq> 1 \<and> length ts \<noteq> 1"
    by (simp add: broadcastable_def)
  with objective_raises [OF False, of alpha gamma] eval_raises [OF False, of alpha gamma]
  show ?thesis by (simp add: sk_objective sk_eval)
qed

section \<open>Extreme scores and the absent clamp\<close>

text \<open>
  Claim C1 says that the loss, the gradient and the Hessian are finite at extreme scores
  (50 with the label 1, -50 with the label 0), because the implementation clamps the
  sigmoid output \<open>p\<close> into \<open>(eps, 1 - eps)\<close> before taking logarithms. The code has
  no clamp, and in binary64 the claim fails at its own first example: on the prediction
  50 with the label 1, \<open>alpha = 0.25\<close> and \<open>gamma = 2\<close>, the objective returns the
  gradient \<open>[nan]\<close> and the Hessian \<open>[nan]\<close>, and the evaluation function returns the
  value \<open>nan\<close>. Nothing is raised.
\<close>

theorem extreme_score_counterexample:
  "focal_loss_lgb_rounded binary64 (Array [Fin 50]) \<lparr>label = Array [Fin 1]\<rparr> (1 / 4) 2
     = Inr (Array [NaN], Array [NaN])
   \<and> focal_loss_lgb_eval_error_rounded binary64 (Array [Fin 50]) \<lparr>label = Array [Fin 1]\<rparr>
       (1 / 4) 2 = Inr (''focal_loss'', NaN, False)"
  by (intro conjI objective_binary64_at_50 eval_binary64_at_50)

text \<open>
  Claim C1, amended. In binary64, for every \<open>alpha\<close> in \<open>[0, 1]\<close> and every
  \<open>gamma \<ge> 0\<close>: at the score 50 the value the code assigns to \<open>p\<close> is exactly 1, which
  no clamp into \<open>(eps, 1 - eps)\<close> would allow; with the label 1 the gradient and the
  Hessian of the objective and the value of the evaluation function are \<open>nan\<close> there,
  with nothing raised. At the score -50 with the label 0 the gradient, the Hessian and
  the evaluation value are all 0.
\<close>

theorem extreme_scores_in_binary64:
  assumes "0 \<le> alpha" and "alpha \<le> 1" and "0 \<le> gamma"
  shows "r_div binary64 (py_float 1)
           (r_add binary64 (py_float 1) (r_exp binary64 (v_neg (Inr (Array [Fin 50])))))
         = Inr (Array [Fin 1])
       \<and> focal_loss_lgb_rounded binary64 (Array [Fin 50]) \<lparr>label = Array [Fin 1]\<rparr>
           alpha gamma = Inr (Array [NaN], Array [NaN])
       \<and> focal_loss_lgb_eval_error_rounded binary64 (Array [Fin 50])
           \<lparr>label = Array [Fin 1]\<rparr> alpha gamma = Inr (''focal_loss'', NaN, False)
       \<and> focal_loss_lgb_rounded binary64 (Array [Fin (- 50)]) \<lparr>label = Array [Fin 0]\<rparr>
           alpha gamma = Inr (Array [Fin 0], Array [Fin 0])
       \<and> focal_loss_lgb_eval_error_rounded binary64 (Array [Fin (- 50)])
           \<lparr>label = Array [Fin 0]\<rparr> alpha gamma = Inr (''focal_loss'', Fin 0, False)"
  by (intro conjI p_binary64_at_50 objective_binary64_at_50 eval_binary64_at_50
      objective_binary64_at_minus_50 [OF assms] eval_binary64_at_minus_50 [OF assms])

theorem extreme_scores_in_binary64_witness:
  "(0::real) \<le> 1 / 4 \<and> (1 / 4 :: real) \<le> 1 \<and> (0::real) \<le> 2
   \<and> r_div binary64 (py_float 1)
           (r_add binary64 (py_float 1) (r_exp binary64 (v_neg (Inr (Array [Fin 50])))))
         = Inr (Array [Fin 1])
   \<and> focal_loss_lgb_rounded binary64 (Array [Fin 50]) \<lparr>label = Array [Fin 1]\<rparr>
           (1 / 4) 2 = Inr (Array [NaN], Array [NaN])
   \<and> focal_loss_lgb_eval_error_rounded binary64 (Array [Fin 50])
           \<lparr>label = Array [Fin 1]\<rparr> (1 / 4) 2 = Inr (''focal_loss'', NaN, False)
   \<and> focal_loss_lgb_rounded binary64 (Array [Fin (- 50)]) \<lparr>label = Array [Fin 0]\<rparr>
           (1 / 4) 2 = Inr (Array [Fin 0], Array [Fin 0])
   \<and> focal_loss_lgb_eval_error_rounded binary64 (Array [Fin (- 50)])
           \<lparr>label = Array [Fin 0]\<rparr> (1 / 4) 2 = Inr (''focal_loss'', Fin 0, False)"
proof -
  have h: "(0::real) \<le> 1 / 4" "(1 / 4 :: real) \<le> 1" "(0::real) \<le> 2" by simp_all
  from extreme_scores_in_binary64 [OF h] h show ?thesis by blast
qed

section \<open>The evaluation metric\<close>



text \<open>
  Claim C10. On an empty prediction vector and an empty label vector the evaluation
  function raises nothing: it returns the triple whose value is \<open>NaN\<close>, the mean of no
  elements. So does the scikit-learn variant.
\<close>

theorem eval_error_empty_is_nan:
  "focal_loss_lgb_eval_error (Array []) \<lparr>label = Array []\<rparr> alpha gamma =
     Inr (''focal_loss'', NaN, False)
   \<and> focal_loss_lgb_eval_error_sk (Array []) (Array []) alpha gamma =
     Inr (''focal_loss'', NaN, False)"
  by (simp add: sk_eval eval_arrays np_sum_def)

section \<open>The objective against central finite differences\<close>

text \<open>
  In exact arithmetic the gradient and the Hessian the objective returns are the 3-point
  central first and second differences of the closed-form loss, with the step
  \<open>10\<^sup>-\<^sup>6\<close> (lemma \<open>objective_closed_form\<close>). In binary64 the three values of the loss
  carry a rounding error of some \<open>10\<^sup>-\<^sup>1\<^sup>6\<close> of their size, and the second difference
  divides it by \<open>dx * dx = 10\<^sup>-\<^sup>1\<^sup>2\<close>: the Hessian is then no approximation of the
  second difference of the closed form.
\<close>

section \<open>Properties of the closed form\<close>




text \<open>
  Claim C8. With \<open>gamma = 0\<close> the loss \<^verbatim>\<open>fl\<close> computes is the alpha-weighted binary
  cross entropy \<open>- (alpha t + (1 - alpha) (1 - t)) (t log p + (1 - t) log (1 - p))\<close> with
  \<open>p\<close> the sigmoid of the score, both evaluated operation by operation in the same
  floating-point arithmetic: the factor \<open>(\<dots>) ** 0\<close> is exactly 1, and multiplying a
  float by 1 changes nothing. This holds for every score and label, on vectors of the
  same length, and for every rounding function that rounds 1 to 1 and leaves the
  negation of a float alone, as binary64 does.
\<close>

theorem gamma_zero_is_rounded_weighted_cross_entropy:
  assumes "keeps_floats rnd" and "length ts = length xs"
  shows "fl_rounded rnd alpha 0 (Inr (Array xs)) (Inr (Array ts))
         = Inr (Array (map2 (weighted_cross_entropy_rounded rnd alpha) xs ts))"
proof -
  have "loss_rounded rnd alpha 0 = weighted_cross_entropy_rounded rnd alpha"
    by (intro ext) (rule loss_rounded_gamma_0 [OF assms(1)])
  then show ?thesis by (simp add: fl_rounded_arrays [OF assms(2)])
qed

theorem gamma_zero_is_rounded_weighted_cross_entropy_witness:
  "keeps_floats binary64 \<and> length [Fin 1, Fin 0] = length [Fin 50, Fin 0]
   \<and> fl_rounded binary64 (1 / 4) 0 (Inr (Array [Fin 50, Fin 0])) (Inr (Array [Fin 1, Fin 0]))
     = Inr (Array (map2 (weighted_cross_entropy_rounded binary64 (1 / 4))
                     [Fin 50, Fin 0] [Fin 1, Fin 0]))"
proof -
  have h: "length [Fin 1, Fin 0] = length [Fin 50, Fin 0]" by simp
  from gamma_zero_is_rounded_weighted_cross_entropy [OF keeps_floats_binary64 h, of "1 / 4"]
    keeps_floats_binary64 h
  show ?thesis by blast
qed

section \<open>The two calling conventions\<close>

text \<open>
  Claim C6. The objective taking the predictions and a dataset returns the same
  (gradient, Hessian) pair, or raises the same error, as the objective taking the
  dataset's label vector and the predictions; the two evaluation functions return the
  same triple.
\<close>

theorem adapters_agree:
  "focal_loss_lgb y_pred dtrain alpha gamma =
     focal_loss_lgb_sk (label dtrain) y_pred alpha gamma
   \<and> focal_loss_lgb_eval_error y_pred dtrain alpha gamma =
     focal_loss_lgb_eval_error_sk (label dtrain) y_pred alpha gamma"
  by (simp add: focal_loss_lgb_sk_def focal_loss_lgb_def fl_sk_def fl_def
      focal_loss_lgb_eval_error_sk_def focal_loss_lgb_eval_error_def Let_def)

section \<open>The scenario of three zero scores\<close>

text \<open>
  Claim C7. On the predictions \<open>[0, 0, 0]\<close> with the labels \<open>[1, 0, 1]\<close>,
  \<open>alpha = 0.25\<close> and \<open>gamma = 2\<close>: \<open>p\<close> is \<open>0.5\<close> for each example; the two label-1
  losses are the same number \<open>ln 2 / 16\<close>, which differs from the label-0 loss
  \<open>3 ln 2 / 16\<close>; the gradient is negative at the two label-1 positions and positive at
  the label-0 position.
\<close>

theorem scenario_three_zero_scores:
  "v_div (py_float 1)
     (v_add (py_float 1) (v_exp (v_neg (Inr (Array [Fin 0, Fin 0, Fin 0]))))) =
     Inr (Array [Fin (1 / 2), Fin (1 / 2), Fin (1 / 2)])
   \<and> fl (1 / 4) 2 (Inr (Array [Fin 0, Fin 0, Fin 0])) (Inr (Array [Fin 1, Fin 0, Fin 1])) =
     Inr (Array [Fin (ln 2 / 16), Fin (3 * ln 2 / 16), Fin (ln 2 / 16)])
   \<and> ln 2 / 16 \<noteq> 3 * ln 2 / (16 :: real)
   \<and> (\<exists>g1 g2 g3 hess.
        focal_loss_lgb (Array [Fin 0, Fin 0, Fin 0]) \<lparr>label = Array [Fin 1, Fin 0, Fin 1]\<rparr>
          (1 / 4) 2 = Inr (Array [Fin g1, Fin g2, Fin g3], hess)
        \<and> g1 < 0 \<and> 0 < g2 \<and> g3 < 0)"
proof -
  have p: "v_div (py_float 1)
     (v_add (py_float 1) (v_exp (v_neg (Inr (Array [Fin 0, Fin 0, Fin 0]))))) =
     Inr (Array [Fin (1 / 2), Fin (1 / 2), Fin (1 / 2)])"
    by (simp add: v_defs)
  have l: "fl (1 / 4) 2 (Inr (Array [Fin 0, Fin 0, Fin 0]))
             (Inr (Array [Fin 1, Fin 0, Fin 1])) =
     Inr (Array [Fin (ln 2 / 16), Fin (3 * ln 2 / 16), Fin (ln 2 / 16)])"
    by (simp add: fl_arrays fl_elem_Fin loss_at_0_label_1 loss_at_0_label_0)
  have ne: "ln 2 / 16 \<noteq> 3 * ln 2 / (16 :: real)"
  proof -
    have "0 < ln (2 :: real)" by simp
    then show ?thesis by simp
  qed
  let ?g1 = "central_difference_first (\<lambda>y. loss (1 / 4) 2 y 1) 0 (1 / 10 ^ 6)"
  let ?g0 = "central_difference_first (\<lambda>y. loss (1 / 4) 2 y 0) 0 (1 / 10 ^ 6)"
  have g1: "?g1 < 0"
    by (rule central_first_neg) (simp_all add: loss_decreasing_label_1)
  have g0: "0 < ?g0"
    by (rule central_first_pos) (simp_all add: loss_increasing_label_0)
  have o: "focal_loss_lgb (Array [Fin 0, Fin 0, Fin 0])
             \<lparr>label = Array [Fin 1, Fin 0, Fin 1]\<rparr> (1 / 4) 2 =
        Inr (Array [Fin ?g1, Fin ?g0, Fin ?g1],
             Array (map2 (hess_elem (1 / 4) 2) [Fin 0, Fin 0, Fin 0] [Fin 1, Fin 0, Fin 1]))"
    by (simp add: objective_arrays grad_elem_Fin)
  from p l ne o g1 g0 show ?thesis by blast
qed

section \<open>One pass over the vectors or one example at a time\<close>

text \<open>
  Claim C9. For a prediction vector and a label vector of the same length and an index
  \<open>i\<close> into them (whatever floats they hold), the \<open>i\<close>-th gradient, Hessian and loss of
  the computation on the whole vectors are the gradient, the Hessian and the loss that
  the same functions return on the one-element vectors of the \<open>i\<close>-th prediction and the
  \<open>i\<close>-th label; the evaluation function's value on the whole vectors is the mean of
  those losses.
\<close>

theorem vectorised_is_elementwise:
  assumes "length ts = length xs" "i < length xs"
  shows "\<exists>gs hs ls.
     length gs = length xs \<and> length hs = length xs \<and> length ls = length xs
     \<and> focal_loss_lgb (Array xs) \<lparr>label = Array ts\<rparr> alpha gamma = Inr (Array gs, Array hs)
     \<and> fl alpha gamma (Inr (Array xs)) (Inr (Array ts)) = Inr (Array ls)
     \<and> focal_loss_lgb_eval_error (Array xs) \<lparr>label = Array ts\<rparr> alpha gamma =
         Inr (''focal_loss'', np_mean (Array ls), False)
     \<and> focal_loss_lgb (Array [xs ! i]) \<lparr>label = Array [ts ! i]\<rparr> alpha gamma =
         Inr (Array [gs ! i], Array [hs ! i])
     \<and> fl alpha gamma (Inr (Array [xs ! i])) (Inr (Array [ts ! i])) = Inr (Array [ls ! i])
     \<and> focal_loss_lgb_eval_error (Array [xs ! i]) \<lparr>label = Array [ts ! i]\<rparr> alpha gamma =
         Inr (''focal_loss'', ls ! i, False)"
proof -
  let ?gs = "map2 (grad_elem alpha gamma) xs ts"
  let ?hs = "map2 (hess_elem alpha gamma) xs ts"
  let ?ls = "map2 (fl_elem alpha gamma) xs ts"
  have len: "length ?gs = length xs" "length ?hs = length xs" "length ?ls = length xs"
    using assms by simp_all
  have whole: "focal_loss_lgb (Array xs) \<lparr>label = Array ts\<rparr> alpha gamma =
      Inr (Array ?gs, Array ?hs)"
    "fl alpha gamma (Inr (Array xs)) (Inr (Array ts)) = Inr (Array ?ls)"
    "focal_loss_lgb_eval_error (Array xs) \<lparr>label = Array ts\<rparr> alpha gamma =
         Inr (''focal_loss'', np_mean (Array ?ls), False)"
    using assms by (simp_all add: objective_arrays fl_arrays eval_arrays)
  have one: "focal_loss_lgb (Array [xs ! i]) \<lparr>label = Array [ts ! i]\<rparr> alpha gamma =
         Inr (Array [?gs ! i], Array [?hs ! i])"
    "fl alpha gamma (Inr (Array [xs ! i])) (Inr (Array [ts ! i])) = Inr (Array [?ls ! i])"
    "focal_loss_lgb_eval_error (Array [xs ! i]) \<lparr>label = Array [ts ! i]\<rparr> alpha gamma =
         Inr (''focal_loss'', ?ls ! i, False)"
    using assms
    by (simp_all add: objective_arrays fl_arrays eval_arrays np_mean_single
        del: np_mean.simps)
  from len whole one show ?thesis by blast
qed

theorem vectorised_is_elementwise_witness:
  "length [Fin 1, Fin 0] = length [Fin 3, Fin (- 2)] \<and> (1::nat) < length [Fin 3, Fin (- 2)]
   \<and> (\<exists>gs hs ls.
     length gs = length [Fin 3, Fin (- 2)] \<and> length hs = length [Fin 3, Fin (- 2)]
     \<and> length ls = length [Fin 3, Fin (- 2)]
     \<and> focal_loss_lgb (Array [Fin 3, Fin (- 2)]) \<lparr>label = Array [Fin 1, Fin 0]\<rparr> (1 / 4) 2 =
         Inr (Array gs, Array hs)
     \<and> fl (1 / 4) 2 (Inr (Array [Fin 3, Fin (- 2)])) (Inr (Array [Fin 1, Fin 0])) =
         Inr (Array ls)
     \<and> focal_loss_lgb_eval_error (Array [Fin 3, Fin (- 2)]) \<lparr>label = Array [Fin 1, Fin 0]\<rparr>
           (1 / 4) 2 =
         Inr (''focal_loss'', np_mean (Array ls), False)
     \<and> focal_loss_lgb (Array [[Fin 3, Fin (- 2)] ! 1]) \<lparr>label = Array [[Fin 1, Fin 0] ! 1]\<rparr>
           (1 / 4) 2 =
         Inr (Array [gs ! 1], Array [hs ! 1])
     \<and> fl (1 / 4) 2 (Inr (Array [[Fin 3, Fin (- 2)] ! 1])) (Inr (Array [[Fin 1, Fin 0] ! 1])) =
         Inr (Array [ls ! 1])
     \<and> focal_loss_lgb_eval_error (Array [[Fin 3, Fin (- 2)] ! 1])
           \<lparr>label = Array [[Fin 1, Fin 0] ! 1]\<rparr> (1 / 4) 2 =
         Inr (''focal_loss'', ls ! 1, False))"
proof -
  have h: "length [Fin 1, Fin 0] = length [Fin 3, Fin (- 2)]"
    "(1::nat) < length [Fin 3, Fin (- 2)]" by simp_all
  show ?thesis
    using h vectorised_is_elementwise [OF h, of "1 / 4" 2] by blast
qed

end
